theory Spec2Isabelle
  imports Main
begin

section \<open>CMake discovery and invocation (mesonbuild/cmake/executor.py)\<close>

text \<open>
  A shallow embedding of the class \<^verbatim>\<open>CMakeExecutor\<close>. The three class attributes
  (\<^verbatim>\<open>class_cmakebin\<close>, \<^verbatim>\<open>class_cmakevers\<close>, \<^verbatim>\<open>class_cmake_cache\<close>) are process-wide
  mutable state; together with the part of the operating system the class touches (the
  ambient environment, the file system, process launches) they form the record
  \<open>world\<close>, which every method takes and returns. An exception is the \<open>Inl\<close> branch
  of the result. Calls to \<^verbatim>\<open>mlog\<close> only print and are left out, except that the
  evaluation of their arguments is kept where it can raise (line 48).
\<close>

subsection \<open>Data\<close>

datatype MachineChoice = BUILD | HOST

datatype error =
    FileNotFoundError
  | PermissionError
  | FileExistsError
  | IsADirectoryError
  | AttributeError
  | TypeError
  | OSError

text \<open>
  \<^verbatim>\<open>ExternalProgram\<close> is declared in \<^verbatim>\<open>dependencies/base.py\<close>; the executor uses its
  display name, \<^verbatim>\<open>found()\<close>, \<^verbatim>\<open>get_command()\<close> and \<^verbatim>\<open>get_path()\<close>. Python hashes and
  compares such an object by identity, which is the field \<open>prog_id\<close>.
\<close>

record ExternalProgram =
  prog_name :: string
  prog_command :: "string list"
  prog_path :: string
  prog_found :: bool
  prog_id :: nat

definition ExternalProgram_found :: "ExternalProgram \<Rightarrow> bool" where
  "ExternalProgram_found p = prog_found p"

definition get_command :: "ExternalProgram \<Rightarrow> string list" where
  "get_command p = prog_command p"

definition get_path :: "ExternalProgram \<Rightarrow> string" where
  "get_path p = prog_path p"

text \<open>
  One slot of \<^verbatim>\<open>class_cmakebin\<close>: \<^verbatim>\<open>None\<close> (never searched), \<^verbatim>\<open>False\<close> (searched and
  not found) or the program that was accepted.
\<close>

datatype cmakebin_slot = PyNone | PyFalse | Program ExternalProgram

type_synonym environ = "(string \<times> string) list"

type_synonym InvocationResult = "int \<times> string \<times> string"

type_synonym cache_key =
  "ExternalProgram option \<times> string list \<times> string \<times> (string \<times> string) set option"

text \<open>
  The part of \<^verbatim>\<open>Environment\<close> that \<^verbatim>\<open>search()\<close> reads:
  \<^verbatim>\<open>environment.binaries[m].lookup_entry(name)\<close>,
  \<^verbatim>\<open>environment.machines.matches_build_machine(m)\<close> and \<^verbatim>\<open>environment.default_cmake\<close>.
\<close>

record Environment =
  lookup_entry :: "MachineChoice \<Rightarrow> string \<Rightarrow> string list option"
  matches_build_machine :: "MachineChoice \<Rightarrow> bool"
  default_cmake :: "string list"

text \<open>
  What the executor does to the operating system, in the order it does it. The outcome of
  a process launch is given by \<open>process\<close>, a function of everything that happened
  before, so that the same command may answer differently when it is run again.
\<close>

datatype event =
    Popen "string list" "environ option" "string option"
  | Makedirs string
  | OpenW string string
  | PathExists string

record world =
  class_cmakebin :: "MachineChoice \<Rightarrow> cmakebin_slot"
  class_cmakevers :: "MachineChoice \<Rightarrow> string option"
  class_cmake_cache :: "cache_key \<rightharpoonup> InvocationResult"
  os_environ :: environ
  dirs :: "string set"
  files :: "string \<rightharpoonup> string"
  trace :: "event list"
  process :: "event list \<Rightarrow> string list \<Rightarrow> environ option \<Rightarrow> string option
    \<Rightarrow> error + InvocationResult"
  from_entry :: "string \<Rightarrow> string list \<Rightarrow> ExternalProgram"
  new_ExternalProgram :: "string \<Rightarrow> ExternalProgram"
  realpath_file :: string
  sizeof_voidp :: nat

record CMakeExecutor =
  min_version :: string
  environment :: Environment
  for_machine :: MachineChoice
  cmakebin :: "ExternalProgram option"
  cmakevers :: "string option"

subsection \<open>Strings\<close>

text \<open>
  \<^verbatim>\<open>str.isspace\<close> and the class \<^verbatim>\<open>\s\<close> of \<^verbatim>\<open>re\<close> on the ASCII range: tab, line feed,
  vertical tab, form feed, carriage return, the four separators 0x1C to 0x1F and space.
\<close>

definition isspace :: "char \<Rightarrow> bool" where
  "isspace c =
     (c = CHR 0x09 \<or> c = CHR 0x0A \<or> c = CHR 0x0B \<or> c = CHR 0x0C \<or> c = CHR 0x0D \<or>
      c = CHR 0x1C \<or> c = CHR 0x1D \<or> c = CHR 0x1E \<or> c = CHR 0x1F \<or> c = CHR 0x20)"

definition strip :: "string \<Rightarrow> string" where
  "strip s = rev (dropWhile isspace (rev (dropWhile isspace s)))"

text \<open>\<^verbatim>\<open>out.split('\n')[0]\<close>: the text before the first line feed.\<close>

definition first_line :: "string \<Rightarrow> string" where
  "first_line out = takeWhile (\<lambda>c. c \<noteq> CHR 0x0A) out"

text \<open>
  A match of \<^verbatim>\<open>\s*cmake version\s*\<close> anchored at the start of \<open>s\<close>: the text after the
  match. The label starts with a character that is no space, so the first \<^verbatim>\<open>\s*\<close> can
  only take the whole run of spaces; the last one is greedy.
\<close>

definition match_label :: "string \<Rightarrow> string option" where
  "match_label s =
     (let s1 = dropWhile isspace s in
      if take 13 s1 = ''cmake version'' then Some (dropWhile isspace (drop 13 s1)) else None)"

lemma match_label_shorter: "match_label s = Some r \<Longrightarrow> length r < length s"
proof -
  assume a: "match_label s = Some r"
  let ?s1 = "dropWhile isspace s"
  from a have t: "take 13 ?s1 = ''cmake version''" and r: "r = dropWhile isspace (drop 13 ?s1)"
    by (auto simp: match_label_def Let_def split: if_splits)
  from t have "length (take 13 ?s1) = 13" by simp
  then have l: "13 \<le> length ?s1" by simp
  have "length r \<le> length (drop 13 ?s1)" unfolding r by (rule length_dropWhile_le)
  also have "\<dots> < length ?s1" using l by simp
  also have "\<dots> \<le> length s" by (rule length_dropWhile_le)
  finally show ?thesis .
qed

text \<open>
  \<^verbatim>\<open>re.sub(r'\s*cmake version\s*', '', s)\<close>: every match, found from left to right, is
  removed.
\<close>

function re_sub_label :: "string \<Rightarrow> string" where
  "re_sub_label [] = []"
| "re_sub_label (c # cs) =
     (case match_label (c # cs) of
        Some r \<Rightarrow> re_sub_label r
      | None \<Rightarrow> c # re_sub_label cs)"
  by pat_completeness auto
termination
  by (relation "measure length") (auto dest: match_label_shorter)

text \<open>Lines 125 and 126: the version that a banner reports.\<close>

definition parse_version :: "string \<Rightarrow> string" where
  "parse_version out = strip (re_sub_label (first_line out))"

subsection \<open>Version comparison\<close>

text \<open>
  Modelled from the spec: \<^verbatim>\<open>mesonlib.version_compare\<close> is not among the sources. The
  spec asks that the candidate's version be at least the minimum under component-wise
  (not lexical) comparison of dotted versions.
\<close>

fun split_dots :: "string \<Rightarrow> string \<Rightarrow> string list" where
  "split_dots acc [] = [rev acc]"
| "split_dots acc (c # cs) =
     (if c = CHR ''.'' then rev acc # split_dots [] cs else split_dots (c # acc) cs)"

definition digit_value :: "char \<Rightarrow> nat" where
  "digit_value c = of_char c - 48"

definition component :: "string \<Rightarrow> nat" where
  "component s = foldl (\<lambda>n c. 10 * n + digit_value c) 0 (takeWhile (\<lambda>c. c \<in> set ''0123456789'') s)"

fun components_ge :: "nat list \<Rightarrow> nat list \<Rightarrow> bool" where
  "components_ge xs [] = True"
| "components_ge [] (y # ys) = False"
| "components_ge (x # xs) (y # ys) = (if x = y then components_ge xs ys else y < x)"

text \<open>
  Modelled from the spec: \<^verbatim>\<open>version_compare(v, minimum)\<close>, true when \<open>v\<close> is at least
  the minimum, component by component; a version that is a proper prefix of another is
  the smaller one.
\<close>

definition version_compare :: "string \<Rightarrow> string \<Rightarrow> bool" where
  "version_compare vstr1 vstr2 =
     components_ge (map component (split_dots [] vstr1)) (map component (split_dots [] vstr2))"

subsection \<open>Discovery\<close>

text \<open>
  \<^verbatim>\<open>Popen_safe\<close> (from \<^verbatim>\<open>mesonlib\<close>) launches a process and waits for it. It returns
  the exit code and the captured output, or raises what the launch raises.
\<close>

definition Popen_safe ::
  "string list \<Rightarrow> environ option \<Rightarrow> string option \<Rightarrow> world \<Rightarrow> (error + InvocationResult) \<times> world" where
  "Popen_safe cmd env cwd w =
     (process w (trace w) cmd env cwd, w\<lparr>trace := trace w @ [Popen cmd env cwd]\<rparr>)"

text \<open>
  The generator \<^verbatim>\<open>search()\<close> (lines 57 to 72) as the list of what it would yield. The
  constructors of \<^verbatim>\<open>ExternalProgram\<close> are functions of the world, so building a
  candidate that the loop never reaches has no effect.
\<close>

definition search :: "Environment \<Rightarrow> MachineChoice \<Rightarrow> world \<Rightarrow> ExternalProgram list" where
  "search env m w =
     (case lookup_entry env m ''cmake'' of
        Some potential_cmakepath \<Rightarrow> [from_entry w ''cmake'' potential_cmakepath]
      | None \<Rightarrow>
          if matches_build_machine env m
          then map (new_ExternalProgram w) (default_cmake env)
          else [])"

definition check_cmake :: "ExternalProgram \<Rightarrow> world \<Rightarrow> (error + string option) \<times> world" where
  "check_cmake prog w =
     (if \<not> ExternalProgram_found prog then (Inr None, w)
      else
        (case Popen_safe (get_command prog @ [''--version'']) None None w of
           (Inl e, w') \<Rightarrow>
             if e = FileNotFoundError then (Inr None, w')
             else if e = PermissionError then (Inr None, w')
             else (Inl e, w')
         | (Inr (rc, out, err), w') \<Rightarrow>
             if rc \<noteq> 0 then (Inr None, w') else (Inr (Some (parse_version out)), w')))"

text \<open>
  The \<^verbatim>\<open>for\<close> loop of lines 83 to 94: the first candidate whose version is truthy (not
  \<^verbatim>\<open>None\<close> and not empty), or \<open>None\<close> when the loop reaches its \<^verbatim>\<open>else\<close>.
\<close>

fun search_loop ::
  "ExternalProgram list \<Rightarrow> world \<Rightarrow> (error + (ExternalProgram \<times> string) option) \<times> world" where
  "search_loop [] w = (Inr None, w)"
| "search_loop (potential_cmakebin # rest) w =
     (case check_cmake potential_cmakebin w of
        (Inl e, w') \<Rightarrow> (Inl e, w')
      | (Inr version_if_ok, w') \<Rightarrow>
          (case version_if_ok of
             None \<Rightarrow> search_loop rest w'
           | Some v \<Rightarrow>
               if v = [] then search_loop rest w'
               else (Inr (Some (potential_cmakebin, v)), w')))"

definition store_record :: "MachineChoice \<Rightarrow> cmakebin_slot \<Rightarrow> string option \<Rightarrow> world \<Rightarrow> world" where
  "store_record m b v w =
     w\<lparr>class_cmakebin := (class_cmakebin w)(m := b),
       class_cmakevers := (class_cmakevers w)(m := v)\<rparr>"

definition find_cmake_binary ::
  "Environment \<Rightarrow> MachineChoice \<Rightarrow> bool \<Rightarrow> world
     \<Rightarrow> (error + cmakebin_slot \<times> string option) \<times> world" where
  "find_cmake_binary env m silent w =
     (case class_cmakebin w m of
        PyFalse \<Rightarrow> (Inr (class_cmakebin w m, class_cmakevers w m), w)
      | Program p \<Rightarrow> (Inr (class_cmakebin w m, class_cmakevers w m), w)
      | PyNone \<Rightarrow>
          (case search_loop (search env m w) w of
             (Inl e, w') \<Rightarrow> (Inl e, w')
           | (Inr (Some (potential_cmakebin, version_if_ok)), w') \<Rightarrow>
               (let w'' = store_record m (Program potential_cmakebin) (Some version_if_ok) w'
                in (Inr (class_cmakebin w'' m, class_cmakevers w'' m), w''))
           | (Inr None, w') \<Rightarrow>
               (let w'' = store_record m PyFalse None w'
                in (Inr (class_cmakebin w'' m, class_cmakevers w'' m), w''))))"

text \<open>
  \<^verbatim>\<open>__init__\<close>. Line 46 sets \<^verbatim>\<open>self.cmakebin\<close> to \<^verbatim>\<open>None\<close> and line 48 then evaluates
  \<^verbatim>\<open>self.cmakebin.get_path()\<close> as an argument of the warning, which raises
  \<^verbatim>\<open>AttributeError\<close>. An exception leaves no object behind. The two \<open>TypeError\<close>
  branches stand for \<^verbatim>\<open>version_compare(None, ...)\<close>;
  \<open>find_cmake_binary\<close> never returns what leads there.
\<close>

definition CMakeExecutor_init ::
  "Environment \<Rightarrow> string \<Rightarrow> MachineChoice \<Rightarrow> bool \<Rightarrow> world \<Rightarrow> (error + CMakeExecutor) \<times> world" where
  "CMakeExecutor_init env version m silent w =
     (case find_cmake_binary env m silent w of
        (Inl e, w') \<Rightarrow> (Inl e, w')
      | (Inr (bin, vers), w') \<Rightarrow>
          (case bin of
             PyFalse \<Rightarrow>
               (Inr \<lparr>min_version = version, environment = env, for_machine = m,
                     cmakebin = None, cmakevers = vers\<rparr>, w')
           | PyNone \<Rightarrow> (Inl TypeError, w')
           | Program p \<Rightarrow>
               (case vers of
                  None \<Rightarrow> (Inl TypeError, w')
                | Some v \<Rightarrow>
                    if \<not> version_compare v version then (Inl AttributeError, w')
                    else
                      (Inr \<lparr>min_version = version, environment = env, for_machine = m,
                            cmakebin = Some p, cmakevers = vers\<rparr>, w'))))"

definition found :: "CMakeExecutor \<Rightarrow> bool" where
  "found self = (cmakebin self \<noteq> None)"

definition version :: "CMakeExecutor \<Rightarrow> string option" where
  "version self = cmakevers self"

subsection \<open>The file system\<close>

text \<open>
  Paths are compared as the strings the executor builds; \<open>dirs\<close> and \<open>files\<close> hold
  what exists under each. \<^verbatim>\<open>os.makedirs(p, exist_ok=True)\<close> raises when \<open>p\<close> is a
  file and \<^verbatim>\<open>open(p, 'w')\<close> raises when \<open>p\<close> is a directory. Parent directories,
  permissions and what the launched tool writes by itself are not part of the model.
\<close>

definition makedirs :: "string \<Rightarrow> world \<Rightarrow> (error + unit) \<times> world" where
  "makedirs p w =
     (let w1 = w\<lparr>trace := trace w @ [Makedirs p]\<rparr> in
      if p \<in> dom (files w) then (Inl FileExistsError, w1)
      else (Inr (), w1\<lparr>dirs := insert p (dirs w)\<rparr>))"

definition open_w :: "string \<Rightarrow> string \<Rightarrow> world \<Rightarrow> (error + unit) \<times> world" where
  "open_w p content w =
     (let w1 = w\<lparr>trace := trace w @ [OpenW p content]\<rparr> in
      if p \<in> dirs w then (Inl IsADirectoryError, w1)
      else (Inr (), w1\<lparr>files := (files w)(p \<mapsto> content)\<rparr>))"

definition path_exists :: "string \<Rightarrow> world \<Rightarrow> bool \<times> world" where
  "path_exists p w =
     (p \<in> dirs w \<or> p \<in> dom (files w), w\<lparr>trace := trace w @ [PathExists p]\<rparr>)"

definition and_then ::
  "(error + 'a) \<times> world \<Rightarrow> ('a \<Rightarrow> world \<Rightarrow> (error + 'b) \<times> world) \<Rightarrow> (error + 'b) \<times> world" where
  "and_then r f = (case r of (Inl e, w) \<Rightarrow> (Inl e, w) | (Inr x, w) \<Rightarrow> f x w)"

subsection \<open>Invocation\<close>

text \<open>
  \<^verbatim>\<open>_cache_key\<close>: \<^verbatim>\<open>frozenset(env.items())\<close> is the set of the pairs, and \<^verbatim>\<open>None\<close>
  stays \<^verbatim>\<open>None\<close>.
\<close>

definition cache_key ::
  "CMakeExecutor \<Rightarrow> string list \<Rightarrow> string \<Rightarrow> environ option \<Rightarrow> cache_key" where
  "cache_key self args build_dir env =
     (let fenv = (case env of Some e \<Rightarrow> Some (set e) | None \<Rightarrow> None);
          targs = args
      in (cmakebin self, targs, build_dir, fenv))"

definition call_real ::
  "CMakeExecutor \<Rightarrow> string list \<Rightarrow> string \<Rightarrow> environ \<Rightarrow> world
     \<Rightarrow> (error + InvocationResult) \<times> world" where
  "call_real self args build_dir env w =
     and_then (makedirs build_dir w) (\<lambda>u w1.
       case cmakebin self of
         None \<Rightarrow> (Inl AttributeError, w1)
       | Some p \<Rightarrow> Popen_safe (get_command p @ args) (Some env) (Some build_dir) w1)"

definition call ::
  "CMakeExecutor \<Rightarrow> string list \<Rightarrow> string \<Rightarrow> environ option \<Rightarrow> bool \<Rightarrow> world
     \<Rightarrow> (error + InvocationResult) \<times> world" where
  "call self args build_dir env disable_cache w =
     (let env1 = (case env of None \<Rightarrow> os_environ w | Some e \<Rightarrow> e) in
      if disable_cache then call_real self args build_dir env1 w
      else
        (let key = cache_key self args build_dir (Some env1) in
         case class_cmake_cache w key of
           Some r \<Rightarrow> (Inr r, w)
         | None \<Rightarrow>
             and_then (call_real self args build_dir env1 w) (\<lambda>r w1.
               (Inr r, w1\<lparr>class_cmake_cache := (class_cmake_cache w1)(key \<mapsto> r)\<rparr>))))"

subsection \<open>Fake build\<close>

fun str_nat :: "nat \<Rightarrow> string" where
  "str_nat n =
     (if n < 10 then [char_of (48 + n)] else str_nat (n div 10) @ [char_of (48 + n mod 10)])"

declare str_nat.simps [simp del]

definition lines_text :: "string list \<Rightarrow> string" where
  "lines_text ls = concat (map (\<lambda>l. l @ [CHR 0x0A]) ls)"

definition cache_marker :: string where
  "cache_marker = lines_text [''CMAKE_PLATFORM_INFO_INITIALIZED:INTERNAL=1'']"

definition c_stub :: "world \<Rightarrow> string" where
  \<open>c_stub w = lines_text
     [''# Fake CMake file to skip the boring and slow stuff'',
      ''set(CMAKE_C_COMPILER "'' @ realpath_file w
        @ ''") # Just give CMake a valid full path to any file'',
      ''set(CMAKE_C_COMPILER_ID "GNU") # Pretend we have found GCC'',
      ''set(CMAKE_COMPILER_IS_GNUCC 1)'',
      ''set(CMAKE_C_COMPILER_LOADED 1)'',
      ''set(CMAKE_C_COMPILER_WORKS TRUE)'',
      ''set(CMAKE_C_ABI_COMPILED TRUE)'',
      ''set(CMAKE_SIZEOF_VOID_P "'' @ str_nat (sizeof_voidp w) @ ''")'']\<close>

definition cxx_stub :: "world \<Rightarrow> string" where
  \<open>cxx_stub w = lines_text
     [''# Fake CMake file to skip the boring and slow stuff'',
      ''set(CMAKE_CXX_COMPILER "'' @ realpath_file w
        @ ''") # Just give CMake a valid full path to any file'',
      ''set(CMAKE_CXX_COMPILER_ID "GNU") # Pretend we have found GCC'',
      ''set(CMAKE_COMPILER_IS_GNUCXX 1)'',
      ''set(CMAKE_CXX_COMPILER_LOADED 1)'',
      ''set(CMAKE_CXX_COMPILER_WORKS TRUE)'',
      ''set(CMAKE_CXX_ABI_COMPILED TRUE)'',
      ''set(CMAKE_SIZEOF_VOID_P "'' @ str_nat (sizeof_voidp w) @ ''")'']\<close>

text \<open>\<^verbatim>\<open>'{}'.format(self.cmakevers)\<close>: \<^verbatim>\<open>None\<close> prints as its name.\<close>

definition format_version :: "string option \<Rightarrow> string" where
  "format_version v = (case v of None \<Rightarrow> ''None'' | Some s \<Rightarrow> s)"

definition cmake_cache_path :: "string \<Rightarrow> string" where
  "cmake_cache_path build_dir = build_dir @ ''/CMakeCache.txt''"

definition comp_dir :: "CMakeExecutor \<Rightarrow> string \<Rightarrow> string" where
  "comp_dir self build_dir = build_dir @ ''/CMakeFiles/'' @ format_version (cmakevers self)"

definition c_comp :: "CMakeExecutor \<Rightarrow> string \<Rightarrow> string" where
  "c_comp self build_dir = comp_dir self build_dir @ ''/CMakeCCompiler.cmake''"

definition cxx_comp :: "CMakeExecutor \<Rightarrow> string \<Rightarrow> string" where
  "cxx_comp self build_dir = comp_dir self build_dir @ ''/CMakeCXXCompiler.cmake''"

text \<open>Lines 176 to 198: a stub is written only where \<^verbatim>\<open>os.path.exists\<close> is false.\<close>

definition write_if_missing :: "string \<Rightarrow> string \<Rightarrow> world \<Rightarrow> (error + unit) \<times> world" where
  "write_if_missing p content w =
     (case path_exists p w of
        (True, w1) \<Rightarrow> (Inr (), w1)
      | (False, w1) \<Rightarrow> open_w p content w1)"

text \<open>Lines 163 to 198, all that \<^verbatim>\<open>call_with_fake_build\<close> does to the file system itself.\<close>

definition fake_build_files :: "CMakeExecutor \<Rightarrow> string \<Rightarrow> world \<Rightarrow> (error + unit) \<times> world" where
  "fake_build_files self build_dir w =
     and_then (makedirs build_dir w) (\<lambda>u w1.
     and_then (open_w (cmake_cache_path build_dir) cache_marker w1) (\<lambda>u w2.
     and_then (makedirs (comp_dir self build_dir) w2) (\<lambda>u w3.
     and_then (write_if_missing (c_comp self build_dir) (c_stub w3) w3) (\<lambda>u w4.
       write_if_missing (cxx_comp self build_dir) (cxx_stub w4) w4))))"

definition call_with_fake_build ::
  "CMakeExecutor \<Rightarrow> string list \<Rightarrow> string \<Rightarrow> environ option \<Rightarrow> world
     \<Rightarrow> (error + InvocationResult) \<times> world" where
  "call_with_fake_build self args build_dir env w =
     (let key = cache_key self args build_dir env in
      case class_cmake_cache w key of
        Some r \<Rightarrow> (Inr r, w)
      | None \<Rightarrow>
          and_then (fake_build_files self build_dir w) (\<lambda>u w1.
            call self args build_dir env False w1))"

subsection \<open>Sequences of operations\<close>

text \<open>What a process does with the class, one operation after the other; a raised
  exception is caught by the caller and the world stays as the operation left it.\<close>

datatype operation =
    Construct Environment string MachineChoice bool
  | Call CMakeExecutor "string list" string "environ option" bool
  | CallWithFakeBuild CMakeExecutor "string list" string "environ option"

fun step :: "operation \<Rightarrow> world \<Rightarrow> world" where
  "step (Construct env v m silent) w = snd (CMakeExecutor_init env v m silent w)"
| "step (Call self args build_dir env disable_cache) w =
     snd (call self args build_dir env disable_cache w)"
| "step (CallWithFakeBuild self args build_dir env) w =
     snd (call_with_fake_build self args build_dir env w)"

fun run :: "operation list \<Rightarrow> world \<Rightarrow> world" where
  "run [] w = w"
| "run (x # xs) w = run xs (step x w)"

subsection \<open>Observations on the trace\<close>

text \<open>
  The version query that \<open>check_cmake\<close> sends to a candidate, and the world after the
  candidates \<open>cs\<close> have had their turn: only a candidate that reports itself found is
  launched. \<open>gate_accepts\<close> and \<open>gate_rejects\<close> read the answer of \<open>check_cmake\<close>
  the way line 87 does.
\<close>

definition probe_event :: "ExternalProgram \<Rightarrow> event" where
  "probe_event c = Popen (get_command c @ [''--version'']) None None"

definition probes :: "ExternalProgram list \<Rightarrow> event list" where
  "probes cs = map probe_event (filter ExternalProgram_found cs)"

definition after_probes :: "ExternalProgram list \<Rightarrow> world \<Rightarrow> world" where
  "after_probes cs w = w\<lparr>trace := trace w @ probes cs\<rparr>"

definition gate_accepts :: "ExternalProgram \<Rightarrow> string \<Rightarrow> world \<Rightarrow> bool" where
  "gate_accepts c v w = (fst (check_cmake c w) = Inr (Some v) \<and> v \<noteq> [])"

definition gate_rejects :: "ExternalProgram \<Rightarrow> world \<Rightarrow> bool" where
  "gate_rejects c w =
     (fst (check_cmake c w) = Inr None \<or> fst (check_cmake c w) = Inr (Some []))"

text \<open>
  \<open>c\<close> is the first of the candidates \<open>cs\<close> to pass the gate, with version \<open>ver\<close>:
  every candidate before it is rejected by the gate when its turn comes, and \<open>c\<close> is
  accepted when its turn comes.
\<close>

definition first_to_pass :: "ExternalProgram list \<Rightarrow> ExternalProgram \<Rightarrow> string \<Rightarrow> world \<Rightarrow> bool" where
  "first_to_pass cs c ver w =
     (\<exists>ps rest. cs = ps @ c # rest
        \<and> (\<forall>k<length ps. gate_rejects (ps ! k) (after_probes (take k ps) w))
        \<and> gate_accepts c ver (after_probes ps w))"

fun is_launch :: "event \<Rightarrow> bool" where
  "is_launch (Popen cmd env cwd) = True"
| "is_launch (Makedirs p) = False"
| "is_launch (OpenW p content) = False"
| "is_launch (PathExists p) = False"

definition launches :: "event list \<Rightarrow> nat" where
  "launches tr = length (filter is_launch tr)"

text \<open>The environment a process started by \<open>call\<close> gets (lines 143 and 144).\<close>

definition effective_env :: "environ option \<Rightarrow> world \<Rightarrow> environ" where
  "effective_env env w = (case env of None \<Rightarrow> os_environ w | Some e \<Rightarrow> e)"

text \<open>
  A frame: \<open>w'\<close> differs from \<open>w\<close> at most in the trace, the directories, the files
  and the invocation cache; no cached result is lost or replaced, and a file that exists
  keeps its content unless its path is in \<open>P\<close>.
\<close>

definition evolves :: "string set \<Rightarrow> world \<Rightarrow> world \<Rightarrow> bool" where
  "evolves P w w' =
     ((\<exists>tr ds fs c. w' = w\<lparr>class_cmake_cache := c, dirs := ds, files := fs, trace := tr\<rparr>)
      \<and> (\<forall>k r. class_cmake_cache w k = Some r \<longrightarrow> class_cmake_cache w' k = Some r)
      \<and> (\<forall>p x. p \<notin> P \<and> files w p = Some x \<longrightarrow> files w' p = Some x))"

subsection \<open>A concrete machine\<close>

text \<open>
  The inputs at which the theorems below are evaluated. A program named by a path is
  found and runs as that path. The tool answers a version query with exit code 0 and the
  banner of CMake 3.9.0, except \<^verbatim>\<open>/opt/cmake\<close>, which exits with 1; any other command
  line exits with the number of events so far, so that running it again gives another
  result.
\<close>

definition example_program :: "string \<Rightarrow> ExternalProgram" where
  "example_program p =
     \<lparr>prog_name = p, prog_command = [p], prog_path = p, prog_found = True,
      prog_id = length p\<rparr>"

definition missing_program :: "string \<Rightarrow> ExternalProgram" where
  "missing_program p =
     \<lparr>prog_name = p, prog_command = [], prog_path = [], prog_found = False, prog_id = 0\<rparr>"

definition example_env :: Environment where
  "example_env =
     \<lparr>lookup_entry = (\<lambda>m n. None),
      matches_build_machine = (\<lambda>m. m = BUILD),
      default_cmake = [''cmake'']\<rparr>"

definition example_process ::
  "event list \<Rightarrow> string list \<Rightarrow> environ option \<Rightarrow> string option \<Rightarrow> error + InvocationResult" where
  "example_process tr cmd env cwd =
     (if cmd = [''/opt/cmake'', ''--version''] then Inr (1, [], ''Illegal instruction'')
      else if cmd = [''cmake'', ''--version'']
      then Inr (0, lines_text [''cmake version 3.9.0'', [],
             ''CMake suite maintained and supported by Kitware (kitware.com/cmake).''], [])
      else Inr (int (length tr), ''-- Configuring done'', []))"

definition fresh_world :: world where
  "fresh_world =
     \<lparr>class_cmakebin = (\<lambda>m. PyNone),
      class_cmakevers = (\<lambda>m. None),
      class_cmake_cache = Map.empty,
      os_environ = [(''PATH'', ''/usr/bin'')],
      dirs = {},
      files = Map.empty,
      trace = [],
      process = example_process,
      from_entry = (\<lambda>n entry. missing_program n),
      new_ExternalProgram = example_program,
      realpath_file = ''/usr/lib/python3/site-packages/mesonbuild/cmake/executor.py'',
      sizeof_voidp = 8\<rparr>"

definition example_executor :: CMakeExecutor where
  "example_executor =
     \<lparr>min_version = ''3.5'', environment = example_env, for_machine = BUILD,
      cmakebin = Some (example_program ''cmake''), cmakevers = Some ''3.9.0''\<rparr>"

text \<open>
  The same machine after an earlier configuration in \<^verbatim>\<open>/tmp/b2\<close>: the tool has left
  its own cache file and both compiler files there.
\<close>

definition configured_world :: world where
  "configured_world =
     fresh_world
       \<lparr>dirs := {''/tmp/b2'', ''/tmp/b2/CMakeFiles'', ''/tmp/b2/CMakeFiles/3.9.0''},
        files :=
          [''/tmp/b2/CMakeCache.txt'' \<mapsto> ''CMAKE_BUILD_TYPE:STRING=Release'',
           ''/tmp/b2/CMakeFiles/3.9.0/CMakeCCompiler.cmake'' \<mapsto> ''# C, written by CMake'',
           ''/tmp/b2/CMakeFiles/3.9.0/CMakeCXXCompiler.cmake'' \<mapsto> ''# C++, written by CMake'']\<rparr>"

section \<open>Theorems\<close>

subsection \<open>Discovery\<close>

lemma parse_version_example: "parse_version ''cmake version 3.9.0'' = ''3.9.0''"
  by (simp add: parse_version_def first_line_def strip_def match_label_def isspace_def)

lemma check_cmake_world: "snd (check_cmake c w) = after_probes [c] w"
  by (simp add: check_cmake_def Popen_safe_def after_probes_def probes_def probe_event_def
      split: prod.splits sum.splits)

lemma after_probes_Nil: "after_probes [] w = w"
  by (simp add: after_probes_def probes_def)

lemma after_probes_Cons: "after_probes (c # cs) w = after_probes cs (after_probes [c] w)"
  by (simp add: after_probes_def probes_def)

lemma search_loop_world: "\<exists>k\<le>length cs. snd (search_loop cs w) = after_probes (take k cs) w"
proof (induction cs arbitrary: w)
  case Nil
  show ?case by (simp add: after_probes_Nil)
next
  case (Cons c cs)
  obtain r where r: "check_cmake c w = (r, after_probes [c] w)"
    using check_cmake_world [of c w] by (cases "check_cmake c w") simp
  from Cons.IH [of "after_probes [c] w"] obtain k where
    k: "k \<le> length cs"
      "snd (search_loop cs (after_probes [c] w)) = after_probes (take k cs) (after_probes [c] w)"
    by blast
  have stop: "snd (search_loop (c # cs) w) = after_probes [c] w
      \<Longrightarrow> \<exists>k\<le>length (c # cs). snd (search_loop (c # cs) w) = after_probes (take k (c # cs)) w"
    by (intro exI [of _ 1]) simp
  have go: "snd (search_loop (c # cs) w) = snd (search_loop cs (after_probes [c] w))
      \<Longrightarrow> \<exists>k\<le>length (c # cs). snd (search_loop (c # cs) w) = after_probes (take k (c # cs)) w"
    using k by (intro exI [of _ "Suc k"]) (simp add: after_probes_Cons [of c "take k cs"])
  show ?case
  proof (cases r)
    case (Inl e)
    with r show ?thesis by (intro stop) simp
  next
    case (Inr v)
    show ?thesis
    proof (cases v)
      case None
      with r Inr show ?thesis by (intro go) simp
    next
      case (Some s)
      show ?thesis
      proof (cases "s = []")
        case True
        with r Inr Some show ?thesis by (intro go) simp
      next
        case False
        with r Inr Some show ?thesis by (intro stop) simp
      qed
    qed
  qed
qed

lemma search_loop_fields:
  "\<exists>tr. snd (search_loop cs w) = w\<lparr>trace := tr\<rparr>"
  using search_loop_world [of cs w] by (auto simp: after_probes_def)

lemma find_cmake_binary_cached:
  "class_cmakebin w m \<noteq> PyNone \<Longrightarrow>
   find_cmake_binary env m silent w = (Inr (class_cmakebin w m, class_cmakevers w m), w)"
  by (cases "class_cmakebin w m") (simp_all add: find_cmake_binary_def)

lemma find_cmake_binary_fields:
  "\<exists>tr b v. snd (find_cmake_binary env m silent w) =
     w\<lparr>trace := tr, class_cmakebin := (class_cmakebin w)(m := b),
       class_cmakevers := (class_cmakevers w)(m := v)\<rparr>"
proof (cases "class_cmakebin w m = PyNone")
  case False
  then have "snd (find_cmake_binary env m silent w) = w" by (simp add: find_cmake_binary_cached)
  then show ?thesis
    by (intro exI [of _ "trace w"] exI [of _ "class_cmakebin w m"] exI [of _ "class_cmakevers w m"]) simp
next
  case True
  obtain tr where tr: "snd (search_loop (search env m w) w) = w\<lparr>trace := tr\<rparr>"
    using search_loop_fields by blast
  show ?thesis
  proof (cases "fst (search_loop (search env m w) w)")
    case (Inl e)
    with True tr have "snd (find_cmake_binary env m silent w) = w\<lparr>trace := tr\<rparr>"
      by (cases "search_loop (search env m w) w") (simp add: find_cmake_binary_def)
    then show ?thesis
      by (intro exI [of _ tr] exI [of _ "class_cmakebin w m"] exI [of _ "class_cmakevers w m"]) simp
  next
    case (Inr x)
    show ?thesis
    proof (cases x)
      case None
      with Inr True tr have "snd (find_cmake_binary env m silent w) =
          w\<lparr>trace := tr, class_cmakebin := (class_cmakebin w)(m := PyFalse),
            class_cmakevers := (class_cmakevers w)(m := None)\<rparr>"
        by (cases "search_loop (search env m w) w") (simp add: find_cmake_binary_def store_record_def)
      then show ?thesis
        by (intro exI [of _ tr] exI [of _ PyFalse] exI [of _ None])
    next
      case (Some cv)
      with Inr True tr have "snd (find_cmake_binary env m silent w) =
          w\<lparr>trace := tr, class_cmakebin := (class_cmakebin w)(m := Program (fst cv)),
            class_cmakevers := (class_cmakevers w)(m := Some (snd cv))\<rparr>"
        by (cases "search_loop (search env m w) w"; cases cv)
           (simp add: find_cmake_binary_def store_record_def)
      then show ?thesis
        by (intro exI [of _ tr] exI [of _ "Program (fst cv)"] exI [of _ "Some (snd cv)"])
    qed
  qed
qed

lemma init_world: "snd (CMakeExecutor_init env v m silent w) = snd (find_cmake_binary env m silent w)"
proof (cases "find_cmake_binary env m silent w")
  case (Pair r w')
  show ?thesis
  proof (cases r)
    case (Inl e)
    with Pair show ?thesis by (simp add: CMakeExecutor_init_def)
  next
    case (Inr bv)
    obtain b vs where bv: "bv = (b, vs)" by (cases bv)
    show ?thesis
    proof (cases b)
      case (Program p)
      with Pair Inr bv show ?thesis by (cases vs) (simp_all add: CMakeExecutor_init_def)
    qed (use Pair Inr bv in \<open>simp_all add: CMakeExecutor_init_def\<close>)
  qed
qed

subsection \<open>What each operation leaves alone\<close>

lemma init_result_cached:
  "class_cmakebin w m \<noteq> PyNone \<Longrightarrow> snd (CMakeExecutor_init env v m silent w) = w"
  by (simp add: init_world find_cmake_binary_cached)

lemma evolvesI:
  assumes "w' = w\<lparr>class_cmake_cache := c, dirs := ds, files := fs, trace := tr\<rparr>"
    and "\<And>k r. class_cmake_cache w k = Some r \<Longrightarrow> c k = Some r"
    and "\<And>p x. p \<notin> P \<Longrightarrow> files w p = Some x \<Longrightarrow> fs p = Some x"
  shows "evolves P w w'"
  unfolding evolves_def using assms by (intro conjI exI [of _ tr] exI [of _ ds] exI [of _ fs] exI [of _ c]) auto

lemma evolves_refl: "evolves P w w"
  by (rule evolvesI [where c="class_cmake_cache w" and ds="dirs w" and fs="files w" and tr="trace w"]) auto

lemma evolves_trans:
  assumes "evolves P w w1" and "evolves Q w1 w2"
  shows "evolves (P \<union> Q) w w2"
proof -
  from assms(1) obtain tr ds fs c where
    1: "w1 = w\<lparr>class_cmake_cache := c, dirs := ds, files := fs, trace := tr\<rparr>"
    unfolding evolves_def by blast
  from assms(2) obtain tr' ds' fs' c' where
    2: "w2 = w1\<lparr>class_cmake_cache := c', dirs := ds', files := fs', trace := tr'\<rparr>"
    unfolding evolves_def by blast
  have k1: "\<And>k r. class_cmake_cache w k = Some r \<Longrightarrow> class_cmake_cache w1 k = Some r"
    using assms(1) unfolding evolves_def by blast
  have k2: "\<And>k r. class_cmake_cache w1 k = Some r \<Longrightarrow> class_cmake_cache w2 k = Some r"
    using assms(2) unfolding evolves_def by blast
  have f1: "\<And>p x. p \<notin> P \<Longrightarrow> files w p = Some x \<Longrightarrow> files w1 p = Some x"
    using assms(1) unfolding evolves_def by blast
  have f2: "\<And>p x. p \<notin> Q \<Longrightarrow> files w1 p = Some x \<Longrightarrow> files w2 p = Some x"
    using assms(2) unfolding evolves_def by blast
  show ?thesis
  proof (rule evolvesI [where c=c' and ds=ds' and fs=fs' and tr=tr'])
    show "w2 = w\<lparr>class_cmake_cache := c', dirs := ds', files := fs', trace := tr'\<rparr>"
      using 1 2 by simp
    show "\<And>k r. class_cmake_cache w k = Some r \<Longrightarrow> c' k = Some r"
      using k1 k2 2 by simp
    show "\<And>p x. p \<notin> P \<union> Q \<Longrightarrow> files w p = Some x \<Longrightarrow> fs' p = Some x"
      using f1 f2 2 by simp
  qed
qed

lemma evolves_mono: "evolves P w w' \<Longrightarrow> P \<subseteq> Q \<Longrightarrow> evolves Q w w'"
  unfolding evolves_def by blast

lemma evolves_same:
  assumes "evolves P w w'"
  shows "class_cmakebin w' = class_cmakebin w" "class_cmakevers w' = class_cmakevers w"
    "os_environ w' = os_environ w" "process w' = process w" "from_entry w' = from_entry w"
    "new_ExternalProgram w' = new_ExternalProgram w" "realpath_file w' = realpath_file w"
    "sizeof_voidp w' = sizeof_voidp w"
proof -
  from assms obtain tr ds fs c where
    "w' = w\<lparr>class_cmake_cache := c, dirs := ds, files := fs, trace := tr\<rparr>"
    unfolding evolves_def by blast
  then show "class_cmakebin w' = class_cmakebin w" "class_cmakevers w' = class_cmakevers w"
    "os_environ w' = os_environ w" "process w' = process w" "from_entry w' = from_entry w"
    "new_ExternalProgram w' = new_ExternalProgram w" "realpath_file w' = realpath_file w"
    "sizeof_voidp w' = sizeof_voidp w"
    by simp_all
qed

lemma evolves_cache: "evolves P w w' \<Longrightarrow> class_cmake_cache w k = Some r \<Longrightarrow> class_cmake_cache w' k = Some r"
  unfolding evolves_def by blast

lemma evolves_files: "evolves P w w' \<Longrightarrow> p \<notin> P \<Longrightarrow> files w p = Some x \<Longrightarrow> files w' p = Some x"
  unfolding evolves_def by blast

lemma evolves_and_then:
  assumes "evolves P w (snd r)"
    and "\<And>x w1. r = (Inr x, w1) \<Longrightarrow> evolves Q w1 (snd (f x w1))"
  shows "evolves (P \<union> Q) w (snd (and_then r f))"
proof (cases r)
  case (Pair a w1)
  show ?thesis
  proof (cases a)
    case (Inl e)
    with Pair assms(1) show ?thesis by (simp add: and_then_def evolves_mono)
  next
    case (Inr x)
    with Pair assms(2) have "evolves Q w1 (snd (f x w1))" by simp
    with assms(1) Pair have "evolves (P \<union> Q) w (snd (f x w1))" by (auto intro: evolves_trans)
    with Pair Inr show ?thesis by (simp add: and_then_def)
  qed
qed

lemma makedirs_evolves: "evolves {} w (snd (makedirs p w))"
proof (cases "p \<in> dom (files w)")
  case True
  show ?thesis
    by (rule evolvesI [where c="class_cmake_cache w" and ds="dirs w" and fs="files w" and tr="trace w @ [Makedirs p]"])
       (use True in \<open>simp_all add: makedirs_def Let_def\<close>)
next
  case False
  show ?thesis
    by (rule evolvesI [where c="class_cmake_cache w" and ds="insert p (dirs w)" and fs="files w" and tr="trace w @ [Makedirs p]"])
       (use False in \<open>simp_all add: makedirs_def Let_def\<close>)
qed

lemma Popen_safe_evolves: "evolves {} w (snd (Popen_safe cmd env cwd w))"
  by (rule evolvesI [where c="class_cmake_cache w" and ds="dirs w" and fs="files w" and tr="trace w @ [Popen cmd env cwd]"])
     (simp_all add: Popen_safe_def)

lemma path_exists_evolves: "evolves {} w (snd (path_exists p w))"
  by (rule evolvesI [where c="class_cmake_cache w" and ds="dirs w" and fs="files w" and tr="trace w @ [PathExists p]"])
     (simp_all add: path_exists_def)

lemma open_w_evolves: "evolves {p} w (snd (open_w p content w))"
proof (cases "p \<in> dirs w")
  case True
  show ?thesis
    by (rule evolvesI [where c="class_cmake_cache w" and ds="dirs w" and fs="files w" and tr="trace w @ [OpenW p content]"])
       (use True in \<open>simp_all add: open_w_def Let_def\<close>)
next
  case False
  show ?thesis
    by (rule evolvesI [where c="class_cmake_cache w" and ds="dirs w" and fs="(files w)(p \<mapsto> content)" and tr="trace w @ [OpenW p content]"])
       (use False in \<open>simp_all add: open_w_def Let_def\<close>)
qed

lemma write_if_missing_evolves: "evolves {} w (snd (write_if_missing p content w))"
proof (cases "p \<in> dirs w \<or> p \<in> dom (files w)")
  case True
  then have "snd (write_if_missing p content w) = snd (path_exists p w)"
    by (simp add: write_if_missing_def path_exists_def)
  then show ?thesis by (simp add: path_exists_evolves)
next
  case False
  let ?w1 = "snd (path_exists p w)"
  from False have eq: "snd (write_if_missing p content w) = snd (open_w p content ?w1)"
    by (simp add: write_if_missing_def path_exists_def)
  have "evolves {} ?w1 (snd (open_w p content ?w1))"
  proof (rule evolvesI [where c="class_cmake_cache ?w1" and ds="dirs ?w1"
        and fs="(files ?w1)(p \<mapsto> content)" and tr="trace ?w1 @ [OpenW p content]"])
    show "snd (open_w p content ?w1) = ?w1\<lparr>class_cmake_cache := class_cmake_cache ?w1,
        dirs := dirs ?w1, files := (files ?w1)(p \<mapsto> content), trace := trace ?w1 @ [OpenW p content]\<rparr>"
      using False by (simp add: open_w_def Let_def path_exists_def)
    show "\<And>q x. q \<notin> {} \<Longrightarrow> files ?w1 q = Some x \<Longrightarrow> ((files ?w1)(p \<mapsto> content)) q = Some x"
      using False by (auto simp: path_exists_def)
  qed simp
  with path_exists_evolves [of w p] have "evolves ({} \<union> {}) w (snd (open_w p content ?w1))"
    by (rule evolves_trans)
  with eq show ?thesis by simp
qed

lemma call_real_evolves: "evolves {} w (snd (call_real self args d e w))"
proof -
  have "evolves ({} \<union> {}) w (snd (call_real self args d e w))"
    unfolding call_real_def
  proof (rule evolves_and_then)
    show "evolves {} w (snd (makedirs d w))" by (rule makedirs_evolves)
    fix x w1
    show "evolves {} w1 (snd (case cmakebin self of None \<Rightarrow> (Inl AttributeError, w1)
        | Some p \<Rightarrow> Popen_safe (get_command p @ args) (Some e) (Some d) w1))"
      by (cases "cmakebin self") (simp_all add: evolves_refl Popen_safe_evolves)
  qed
  then show ?thesis by simp
qed

lemma call_real_cache: "class_cmake_cache (snd (call_real self args d e w)) = class_cmake_cache w"
  by (simp add: call_real_def and_then_def makedirs_def Popen_safe_def Let_def split: option.splits)

lemma call_evolves: "evolves {} w (snd (call self args d env dc w))"
proof (cases dc)
  case True
  then show ?thesis by (simp add: call_def call_real_evolves)
next
  case dc: False
  let ?e = "case env of None \<Rightarrow> os_environ w | Some e \<Rightarrow> e"
  let ?k = "cache_key self args d (Some ?e)"
  show ?thesis
  proof (cases "class_cmake_cache w ?k")
    case (Some x)
    with dc show ?thesis by (simp add: call_def Let_def evolves_refl)
  next
    case miss: None
    have "evolves ({} \<union> {}) w (snd (and_then (call_real self args d ?e w)
        (\<lambda>r w1. (Inr r, w1\<lparr>class_cmake_cache := (class_cmake_cache w1)(?k \<mapsto> r)\<rparr>))))"
    proof (rule evolves_and_then)
      show "evolves {} w (snd (call_real self args d ?e w))" by (rule call_real_evolves)
      fix x w1
      assume r: "call_real self args d ?e w = (Inr x, w1)"
      have "class_cmake_cache w1 = class_cmake_cache w"
        using call_real_cache [of self args d ?e w] r by simp
      with miss have m1: "class_cmake_cache w1 ?k = None" by simp
      show "evolves {} w1 (snd (Inr x, w1\<lparr>class_cmake_cache := (class_cmake_cache w1)(?k \<mapsto> x)\<rparr>))"
        by (rule evolvesI [where c="(class_cmake_cache w1)(?k \<mapsto> x)" and ds="dirs w1"
              and fs="files w1" and tr="trace w1"])
           (use m1 in auto)
    qed
    with dc miss show ?thesis by (simp add: call_def Let_def)
  qed
qed

lemma fake_build_files_evolves:
  "evolves {cmake_cache_path d} w (snd (fake_build_files self d w))"
proof -
  have "evolves ({} \<union> ({cmake_cache_path d} \<union> ({} \<union> ({} \<union> {})))) w
      (snd (fake_build_files self d w))"
    unfolding fake_build_files_def
    by (intro evolves_and_then makedirs_evolves open_w_evolves write_if_missing_evolves)
  then show ?thesis by simp
qed

lemma call_with_fake_build_evolves:
  "evolves {cmake_cache_path d} w (snd (call_with_fake_build self args d env w))"
proof (cases "class_cmake_cache w (cache_key self args d env)")
  case (Some r)
  then show ?thesis by (simp add: call_with_fake_build_def Let_def evolves_refl)
next
  case None
  have "evolves ({cmake_cache_path d} \<union> {}) w
      (snd (and_then (fake_build_files self d w) (\<lambda>u w1. call self args d env False w1)))"
    by (intro evolves_and_then fake_build_files_evolves call_evolves)
  with None show ?thesis by (simp add: call_with_fake_build_def Let_def)
qed

subsection \<open>The discovery record under sequences of operations\<close>

lemma find_cmake_binary_other:
  "m' \<noteq> m \<Longrightarrow>
   class_cmakebin (snd (find_cmake_binary env m silent w)) m' = class_cmakebin w m' \<and>
   class_cmakevers (snd (find_cmake_binary env m silent w)) m' = class_cmakevers w m'"
  using find_cmake_binary_fields [of env m silent w] by auto

lemma find_cmake_binary_rest:
  "class_cmake_cache (snd (find_cmake_binary env m silent w)) = class_cmake_cache w"
  "os_environ (snd (find_cmake_binary env m silent w)) = os_environ w"
  "files (snd (find_cmake_binary env m silent w)) = files w"
  "dirs (snd (find_cmake_binary env m silent w)) = dirs w"
  "process (snd (find_cmake_binary env m silent w)) = process w"
  using find_cmake_binary_fields [of env m silent w] by auto

lemma step_keeps_record:
  assumes "class_cmakebin w m \<noteq> PyNone"
  shows "class_cmakebin (step x w) m = class_cmakebin w m \<and>
         class_cmakevers (step x w) m = class_cmakevers w m"
proof (cases x)
  case (Construct env v m' silent)
  show ?thesis
  proof (cases "m' = m")
    case True
    with Construct assms show ?thesis by (simp add: init_result_cached)
  next
    case False
    with Construct show ?thesis
      using find_cmake_binary_other [of m m' env silent w] by (simp add: init_world)
  qed
next
  case (Call self args d env dc)
  then show ?thesis using evolves_same [OF call_evolves [of w self args d env dc]] by simp
next
  case (CallWithFakeBuild self args d env)
  then show ?thesis
    using evolves_same [OF call_with_fake_build_evolves [of d w self args env]] by simp
qed

lemma run_keeps_record:
  "class_cmakebin w m \<noteq> PyNone \<Longrightarrow>
   class_cmakebin (run xs w) m = class_cmakebin w m \<and>
   class_cmakevers (run xs w) m = class_cmakevers w m"
proof (induction xs arbitrary: w)
  case Nil
  show ?case by simp
next
  case (Cons x xs)
  from step_keeps_record [OF Cons.prems, of x]
  have s: "class_cmakebin (step x w) m = class_cmakebin w m"
    "class_cmakevers (step x w) m = class_cmakevers w m" by simp_all
  with Cons.prems have "class_cmakebin (step x w) m \<noteq> PyNone" by simp
  from Cons.IH [OF this] s show ?case by simp
qed

lemma step_keeps_cache:
  "os_environ (step x w) = os_environ w \<and>
   (class_cmake_cache w k = Some r \<longrightarrow> class_cmake_cache (step x w) k = Some r)"
proof (cases x)
  case (Construct env v m silent)
  then show ?thesis by (simp add: init_world find_cmake_binary_rest)
next
  case (Call self args d env dc)
  then show ?thesis
    using evolves_same(3) [OF call_evolves [of w self args d env dc]]
      evolves_cache [OF call_evolves [of w self args d env dc], of k r] by simp
next
  case (CallWithFakeBuild self args d env)
  then show ?thesis
    using evolves_same(3) [OF call_with_fake_build_evolves [of d w self args env]]
      evolves_cache [OF call_with_fake_build_evolves [of d w self args env], of k r] by simp
qed

lemma run_keeps_cache:
  "os_environ (run xs w) = os_environ w \<and>
   (class_cmake_cache w k = Some r \<longrightarrow> class_cmake_cache (run xs w) k = Some r)"
proof (induction xs arbitrary: w)
  case Nil
  show ?case by simp
next
  case (Cons x xs)
  from step_keeps_cache [of x w k r] Cons.IH [of "step x w"] show ?case by simp
qed

lemma find_cmake_binary_first:
  assumes "class_cmakebin w m = PyNone"
  shows "(\<exists>e. fst (find_cmake_binary env m silent w) = Inl e
            \<and> class_cmakebin (snd (find_cmake_binary env m silent w)) m = PyNone
            \<and> class_cmakevers (snd (find_cmake_binary env m silent w)) m = class_cmakevers w m)
       \<or> (\<exists>p v. fst (find_cmake_binary env m silent w) = Inr (Program p, Some v)
            \<and> class_cmakebin (snd (find_cmake_binary env m silent w)) m = Program p
            \<and> class_cmakevers (snd (find_cmake_binary env m silent w)) m = Some v)
       \<or> (fst (find_cmake_binary env m silent w) = Inr (PyFalse, None)
            \<and> class_cmakebin (snd (find_cmake_binary env m silent w)) m = PyFalse
            \<and> class_cmakevers (snd (find_cmake_binary env m silent w)) m = None)"
proof -
  obtain r w1 where r: "search_loop (search env m w) w = (r, w1)"
    by (cases "search_loop (search env m w) w")
  obtain tr where "snd (search_loop (search env m w) w) = w\<lparr>trace := tr\<rparr>"
    using search_loop_fields by blast
  with r have w1: "w1 = w\<lparr>trace := tr\<rparr>" by simp
  show ?thesis
  proof (cases r)
    case (Inl e)
    with assms r w1 show ?thesis by (simp add: find_cmake_binary_def)
  next
    case (Inr x)
    show ?thesis
    proof (cases x)
      case None
      with Inr assms r w1 show ?thesis by (simp add: find_cmake_binary_def store_record_def)
    next
      case (Some cv)
      obtain c v where "cv = (c, v)" by (cases cv)
      with Some Inr assms r w1 show ?thesis by (simp add: find_cmake_binary_def store_record_def)
    qed
  qed
qed

text \<open>
  C10. Once discovery has run out of candidates for a role and stored that the tool is
  absent, every later construction for the role, after any operations of the class in
  between, returns an executor (it does not raise), leaves the world as it is, and that
  executor has \<open>found\<close> false and \<open>version\<close> \<open>None\<close>.
\<close>

theorem absent_record_construction:
  assumes "class_cmakebin w0 m = PyNone"
    and "fst (find_cmake_binary env0 m silent0 w0) = Inr (PyFalse, vv)"
  shows "\<exists>self.
      CMakeExecutor_init env v m silent (run xs (snd (find_cmake_binary env0 m silent0 w0)))
        = (Inr self, run xs (snd (find_cmake_binary env0 m silent0 w0)))
      \<and> \<not> found self \<and> version self = None"
proof -
  let ?w1 = "snd (find_cmake_binary env0 m silent0 w0)"
  let ?w = "run xs ?w1"
  from find_cmake_binary_first [OF assms(1), of env0 silent0] assms(2)
  have stored: "class_cmakebin ?w1 m = PyFalse" "class_cmakevers ?w1 m = None" by auto
  then have "class_cmakebin ?w1 m \<noteq> PyNone" by simp
  from run_keeps_record [OF this, of xs] stored
  have kept: "class_cmakebin ?w m = PyFalse" "class_cmakevers ?w m = None" by simp_all
  then have "find_cmake_binary env m silent ?w = (Inr (PyFalse, None), ?w)"
    by (simp add: find_cmake_binary_cached)
  then have "CMakeExecutor_init env v m silent ?w =
      (Inr \<lparr>min_version = v, environment = env, for_machine = m, cmakebin = None,
            cmakevers = None\<rparr>, ?w)"
    by (simp add: CMakeExecutor_init_def)
  then show ?thesis by (simp add: found_def version_def)
qed

lemmas example_defs =
  fresh_world_def example_env_def example_process_def example_program_def
  missing_program_def example_executor_def

lemmas discovery_defs =
  CMakeExecutor_init_def find_cmake_binary_def search_def check_cmake_def
  Popen_safe_def store_record_def ExternalProgram_found_def get_command_def
  parse_version_def first_line_def strip_def match_label_def isspace_def lines_text_def
  version_compare_def component_def digit_value_def

theorem absent_record_construction_witness:
  "class_cmakebin fresh_world HOST = PyNone
   \<and> fst (find_cmake_binary example_env HOST False fresh_world) = Inr (PyFalse, None)
   \<and> (\<exists>self.
      CMakeExecutor_init example_env ''3.10'' HOST True
          (run [Construct example_env ''3.5'' BUILD False]
             (snd (find_cmake_binary example_env HOST False fresh_world)))
        = (Inr self, run [Construct example_env ''3.5'' BUILD False]
             (snd (find_cmake_binary example_env HOST False fresh_world)))
      \<and> \<not> found self \<and> version self = None)"
proof -
  have a: "class_cmakebin fresh_world HOST = PyNone" by (simp add: fresh_world_def)
  have b: "fst (find_cmake_binary example_env HOST False fresh_world) = Inr (PyFalse, None)"
    by (simp add: discovery_defs example_defs)
  from a b absent_record_construction [OF a b] show ?thesis by blast
qed

lemma step_from_unsearched:
  assumes "class_cmakebin w m = PyNone"
  shows "(class_cmakebin (step x w) m = PyNone \<and> class_cmakevers (step x w) m = class_cmakevers w m)
       \<or> (\<exists>p v. class_cmakebin (step x w) m = Program p \<and> class_cmakevers (step x w) m = Some v)
       \<or> (class_cmakebin (step x w) m = PyFalse \<and> class_cmakevers (step x w) m = None)"
proof (cases x)
  case (Construct env v m' silent)
  show ?thesis
  proof (cases "m' = m")
    case True
    with Construct find_cmake_binary_first [OF assms, of env silent] show ?thesis
      by (auto simp: init_world)
  next
    case False
    with Construct assms show ?thesis
      using find_cmake_binary_other [of m m' env silent w] by (simp add: init_world)
  qed
next
  case (Call self args d env dc)
  then show ?thesis
    using evolves_same [OF call_evolves [of w self args d env dc]] assms by simp
next
  case (CallWithFakeBuild self args d env)
  then show ?thesis
    using evolves_same [OF call_with_fake_build_evolves [of d w self args env]] assms by simp
qed

text \<open>
  C8. The discovery record of a role is written at most once. A single operation of the
  class takes an unsearched slot (\<open>PyNone\<close>) to itself, to a program with its version,
  or to \<open>PyFalse\<close> with no version. From then on no sequence of operations changes the
  slot or the version, \<open>find_cmake_binary\<close> returns the stored pair and leaves the
  whole world, the trace of process launches included, as it is, and so does a
  construction.
\<close>

theorem discovery_record_written_once:
  "(class_cmakebin w m = PyNone \<longrightarrow>
      (class_cmakebin (step x w) m = PyNone \<and> class_cmakevers (step x w) m = class_cmakevers w m)
      \<or> (\<exists>p v. class_cmakebin (step x w) m = Program p \<and> class_cmakevers (step x w) m = Some v)
      \<or> (class_cmakebin (step x w) m = PyFalse \<and> class_cmakevers (step x w) m = None))
   \<and> (class_cmakebin w m \<noteq> PyNone \<longrightarrow>
      class_cmakebin (run xs w) m = class_cmakebin w m
      \<and> class_cmakevers (run xs w) m = class_cmakevers w m
      \<and> find_cmake_binary env m silent (run xs w)
          = (Inr (class_cmakebin w m, class_cmakevers w m), run xs w)
      \<and> snd (CMakeExecutor_init env v m silent (run xs w)) = run xs w)"
proof (intro conjI impI)
  assume "class_cmakebin w m = PyNone"
  then show "(class_cmakebin (step x w) m = PyNone \<and> class_cmakevers (step x w) m = class_cmakevers w m)
      \<or> (\<exists>p v. class_cmakebin (step x w) m = Program p \<and> class_cmakevers (step x w) m = Some v)
      \<or> (class_cmakebin (step x w) m = PyFalse \<and> class_cmakevers (step x w) m = None)"
    by (rule step_from_unsearched)
next
  assume a: "class_cmakebin w m \<noteq> PyNone"
  from run_keeps_record [OF a, of xs]
  show k1: "class_cmakebin (run xs w) m = class_cmakebin w m"
    and k2: "class_cmakevers (run xs w) m = class_cmakevers w m" by simp_all
  from a k1 have b: "class_cmakebin (run xs w) m \<noteq> PyNone" by simp
  from find_cmake_binary_cached [OF b, of env silent] k1 k2
  show "find_cmake_binary env m silent (run xs w)
      = (Inr (class_cmakebin w m, class_cmakevers w m), run xs w)" by simp
  from b show "snd (CMakeExecutor_init env v m silent (run xs w)) = run xs w"
    by (rule init_result_cached)
qed

lemma first_construction:
  "CMakeExecutor_init example_env ''3.5'' BUILD False fresh_world =
     (Inr example_executor,
      fresh_world\<lparr>class_cmakebin := (\<lambda>m. PyNone)(BUILD := Program (example_program ''cmake'')),
        class_cmakevers := (\<lambda>m. None)(BUILD := Some ''3.9.0''),
        trace := [Popen [''cmake'', ''--version''] None None]\<rparr>)"
  by (simp add: discovery_defs example_defs)


theorem discovery_record_written_once_witness:
  "class_cmakebin fresh_world BUILD = PyNone
   \<and> ((class_cmakebin (step (Construct example_env ''3.5'' BUILD False) fresh_world) BUILD = PyNone
         \<and> class_cmakevers (step (Construct example_env ''3.5'' BUILD False) fresh_world) BUILD
             = class_cmakevers fresh_world BUILD)
      \<or> (\<exists>p v. class_cmakebin (step (Construct example_env ''3.5'' BUILD False) fresh_world) BUILD
             = Program p
         \<and> class_cmakevers (step (Construct example_env ''3.5'' BUILD False) fresh_world) BUILD
             = Some v)
      \<or> (class_cmakebin (step (Construct example_env ''3.5'' BUILD False) fresh_world) BUILD = PyFalse
         \<and> class_cmakevers (step (Construct example_env ''3.5'' BUILD False) fresh_world) BUILD
             = None))
   \<and> class_cmakebin (step (Construct example_env ''3.5'' BUILD False) fresh_world) BUILD
        = Program (example_program ''cmake'')
   \<and> class_cmakebin
        (run [Call example_executor [''-E'', ''capabilities''] ''/tmp/b1'' None False,
              Construct example_env ''3.10'' BUILD True]
           (step (Construct example_env ''3.5'' BUILD False) fresh_world)) BUILD
        = Program (example_program ''cmake'')
   \<and> find_cmake_binary example_env BUILD True
        (run [Call example_executor [''-E'', ''capabilities''] ''/tmp/b1'' None False,
              Construct example_env ''3.10'' BUILD True]
           (step (Construct example_env ''3.5'' BUILD False) fresh_world))
        = (Inr (Program (example_program ''cmake''), Some ''3.9.0''),
           run [Call example_executor [''-E'', ''capabilities''] ''/tmp/b1'' None False,
                Construct example_env ''3.10'' BUILD True]
             (step (Construct example_env ''3.5'' BUILD False) fresh_world))"
proof -
  let ?w1 = "step (Construct example_env ''3.5'' BUILD False) fresh_world"
  have a: "class_cmakebin fresh_world BUILD = PyNone" by (simp add: fresh_world_def)
  have b: "class_cmakebin ?w1 BUILD = Program (example_program ''cmake'')"
    by (simp add: first_construction)
  have c: "class_cmakevers ?w1 BUILD = Some ''3.9.0''"
    by (simp add: first_construction)
  from b have d: "class_cmakebin ?w1 BUILD \<noteq> PyNone" by simp
  note t1 = discovery_record_written_once
    [of fresh_world BUILD "Construct example_env ''3.5'' BUILD False"]
  note t2 = discovery_record_written_once
    [of ?w1 BUILD _ "[Call example_executor [''-E'', ''capabilities''] ''/tmp/b1'' None False,
              Construct example_env ''3.10'' BUILD True]" example_env True]
  from t1 a have p1: "(class_cmakebin ?w1 BUILD = PyNone
         \<and> class_cmakevers ?w1 BUILD = class_cmakevers fresh_world BUILD)
      \<or> (\<exists>p v. class_cmakebin ?w1 BUILD = Program p \<and> class_cmakevers ?w1 BUILD = Some v)
      \<or> (class_cmakebin ?w1 BUILD = PyFalse \<and> class_cmakevers ?w1 BUILD = None)"
    by blast
  from t2 d b c have p2: "class_cmakebin
        (run [Call example_executor [''-E'', ''capabilities''] ''/tmp/b1'' None False,
              Construct example_env ''3.10'' BUILD True] ?w1) BUILD
        = Program (example_program ''cmake'')"
    and p3: "find_cmake_binary example_env BUILD True
        (run [Call example_executor [''-E'', ''capabilities''] ''/tmp/b1'' None False,
              Construct example_env ''3.10'' BUILD True] ?w1)
        = (Inr (Program (example_program ''cmake''), Some ''3.9.0''),
           run [Call example_executor [''-E'', ''capabilities''] ''/tmp/b1'' None False,
                Construct example_env ''3.10'' BUILD True] ?w1)"
    by simp_all
  from a p1 b p2 p3 show ?thesis by (intro conjI)
qed

lemma search_loop_single:
  "search_loop [c] w =
     (if gate_rejects c w then (Inr None, after_probes [c] w)
      else case fst (check_cmake c w) of
             Inl e \<Rightarrow> (Inl e, after_probes [c] w)
           | Inr v \<Rightarrow> (Inr (Some (c, the v)), after_probes [c] w))"
proof -
  obtain r where r: "check_cmake c w = (r, after_probes [c] w)"
    using check_cmake_world [of c w] by (cases "check_cmake c w") simp
  show ?thesis
  proof (cases r)
    case (Inl e)
    with r show ?thesis by (simp add: gate_rejects_def)
  next
    case (Inr v)
    with r show ?thesis by (cases v) (simp_all add: gate_rejects_def)
  qed
qed

text \<open>
  C9. When the configuration has an entry for the tool and the role, \<open>search\<close> yields
  the program built from that entry and nothing else, whatever the list of defaults is.
  A first construction for the role then launches at most the version query of that one
  program. If the gate accepts it, it is stored; if the gate rejects it, the tool is
  stored as absent: no default is tried in its place.
\<close>

theorem explicit_entry_is_the_only_candidate:
  assumes "lookup_entry env m ''cmake'' = Some entry"
    and "class_cmakebin w m = PyNone"
  shows "search env m w = [from_entry w ''cmake'' entry]
    \<and> trace (snd (CMakeExecutor_init env v m silent w))
        = trace w @ probes [from_entry w ''cmake'' entry]
    \<and> (gate_accepts (from_entry w ''cmake'' entry) ver w \<longrightarrow>
          class_cmakebin (snd (CMakeExecutor_init env v m silent w)) m
            = Program (from_entry w ''cmake'' entry)
          \<and> class_cmakevers (snd (CMakeExecutor_init env v m silent w)) m = Some ver)
    \<and> (gate_rejects (from_entry w ''cmake'' entry) w \<longrightarrow>
          class_cmakebin (snd (CMakeExecutor_init env v m silent w)) m = PyFalse
          \<and> class_cmakevers (snd (CMakeExecutor_init env v m silent w)) m = None)"
proof -
  let ?c = "from_entry w ''cmake'' entry"
  let ?w' = "snd (CMakeExecutor_init env v m silent w)"
  have s: "search env m w = [?c]" using assms(1) by (simp add: search_def)
  have w': "?w' = snd (find_cmake_binary env m silent w)" by (rule init_world)
  have "snd (search_loop [?c] w) = after_probes [?c] w"
    by (simp add: search_loop_single del: search_loop.simps split: sum.splits)
  then obtain r where r: "search_loop [?c] w = (r, after_probes [?c] w)"
    by (cases "search_loop [?c] w") (simp del: search_loop.simps)
  have tr: "trace ?w' = trace w @ probes [?c]"
  proof (cases r)
    case (Inl e)
    with r assms(2) s show ?thesis
      unfolding w' by (simp add: find_cmake_binary_def after_probes_def del: search_loop.simps)
  next
    case (Inr x)
    with r assms(2) s show ?thesis
      unfolding w'
      by (cases x)
         (auto simp add: find_cmake_binary_def after_probes_def store_record_def
           simp del: search_loop.simps)
  qed
  have acc: "class_cmakebin ?w' m = Program ?c \<and> class_cmakevers ?w' m = Some ver"
    if "gate_accepts ?c ver w"
  proof -
    from that have "fst (check_cmake ?c w) = Inr (Some ver)" "ver \<noteq> []"
      by (simp_all add: gate_accepts_def)
    then have "search_loop [?c] w = (Inr (Some (?c, ver)), after_probes [?c] w)"
      by (simp add: search_loop_single gate_rejects_def del: search_loop.simps)
    with assms(2) s show ?thesis
      unfolding w' by (simp add: find_cmake_binary_def store_record_def del: search_loop.simps)
  qed
  have rej: "class_cmakebin ?w' m = PyFalse \<and> class_cmakevers ?w' m = None"
    if "gate_rejects ?c w"
  proof -
    from that have "search_loop [?c] w = (Inr None, after_probes [?c] w)"
      by (simp add: search_loop_single del: search_loop.simps)
    with assms(2) s show ?thesis
      unfolding w' by (simp add: find_cmake_binary_def store_record_def del: search_loop.simps)
  qed
  from s tr acc rej show ?thesis by blast
qed

theorem explicit_entry_is_the_only_candidate_witness:
  "lookup_entry (example_env\<lparr>lookup_entry := (\<lambda>m n. Some [''/nonexistent/cmake''])\<rparr>) BUILD ''cmake''
      = Some [''/nonexistent/cmake'']
   \<and> class_cmakebin fresh_world BUILD = PyNone
   \<and> gate_rejects (from_entry fresh_world ''cmake'' [''/nonexistent/cmake'']) fresh_world
   \<and> search (example_env\<lparr>lookup_entry := (\<lambda>m n. Some [''/nonexistent/cmake''])\<rparr>) BUILD fresh_world
      = [missing_program ''cmake'']
   \<and> trace (snd (CMakeExecutor_init
        (example_env\<lparr>lookup_entry := (\<lambda>m n. Some [''/nonexistent/cmake''])\<rparr>)
        ''3.5'' BUILD False fresh_world)) = []
   \<and> class_cmakebin (snd (CMakeExecutor_init
        (example_env\<lparr>lookup_entry := (\<lambda>m n. Some [''/nonexistent/cmake''])\<rparr>)
        ''3.5'' BUILD False fresh_world)) BUILD = PyFalse"
proof -
  let ?env = "example_env\<lparr>lookup_entry := (\<lambda>m n. Some [''/nonexistent/cmake''])\<rparr>"
  have a: "lookup_entry ?env BUILD ''cmake'' = Some [''/nonexistent/cmake'']" by simp
  have b: "class_cmakebin fresh_world BUILD = PyNone" by (simp add: fresh_world_def)
  have c: "from_entry fresh_world ''cmake'' [''/nonexistent/cmake''] = missing_program ''cmake''"
    by (simp add: fresh_world_def)
  have d: "gate_rejects (missing_program ''cmake'') fresh_world"
    by (simp add: gate_rejects_def check_cmake_def ExternalProgram_found_def missing_program_def)
  have e: "probes [missing_program ''cmake''] = []"
    by (simp add: probes_def ExternalProgram_found_def missing_program_def)
  have f: "trace fresh_world = []" by (simp add: fresh_world_def)
  from explicit_entry_is_the_only_candidate [OF a b, of "''3.5''" False] a b c d e f
  show ?thesis by simp
qed

text \<open>
  C2. The scenario of the claim: one default candidate, whose version query succeeds
  with the banner of CMake 3.9.0, and a caller that asks for 3.10. The banner parses to
  3.9.0, which is below 3.10, and the construction ends in \<open>AttributeError\<close> (line 48
  calls \<^verbatim>\<open>get_path\<close> on the \<^verbatim>\<open>None\<close> that line 46 has just stored): no executor is
  returned on which \<open>found\<close> could be asked.
\<close>

theorem old_cmake_construction_raises:
  "default_cmake example_env = [''cmake'']
   \<and> process fresh_world [] [''cmake'', ''--version''] None None
       = Inr (0, lines_text [''cmake version 3.9.0'', [],
            ''CMake suite maintained and supported by Kitware (kitware.com/cmake).''], [])
   \<and> \<not> version_compare ''3.9.0'' ''3.10''
   \<and> fst (CMakeExecutor_init example_env ''3.10'' BUILD False fresh_world) = Inl AttributeError"
  by (simp add: discovery_defs example_defs)

text \<open>
  C3. Of the conditions the claim lists, a version below the caller's minimum is not
  absorbed: whenever the record of the role holds a program whose version does not
  satisfy the minimum, the construction raises \<open>AttributeError\<close>.
\<close>

theorem version_below_minimum_raises:
  assumes "class_cmakebin w m = Program p"
    and "class_cmakevers w m = Some ver"
    and "\<not> version_compare ver minimum"
  shows "CMakeExecutor_init env minimum m silent w = (Inl AttributeError, w)"
proof -
  from assms(1) have "class_cmakebin w m \<noteq> PyNone" by simp
  from find_cmake_binary_cached [OF this, of env silent] assms
  show ?thesis by (simp add: CMakeExecutor_init_def)
qed

theorem version_below_minimum_raises_witness:
  "class_cmakebin (snd (CMakeExecutor_init example_env ''3.5'' BUILD False fresh_world)) BUILD
      = Program (example_program ''cmake'')
   \<and> class_cmakevers (snd (CMakeExecutor_init example_env ''3.5'' BUILD False fresh_world)) BUILD
      = Some ''3.9.0''
   \<and> \<not> version_compare ''3.9.0'' ''3.10''
   \<and> CMakeExecutor_init example_env ''3.10'' BUILD True
        (snd (CMakeExecutor_init example_env ''3.5'' BUILD False fresh_world))
      = (Inl AttributeError, snd (CMakeExecutor_init example_env ''3.5'' BUILD False fresh_world))"
proof -
  let ?w = "snd (CMakeExecutor_init example_env ''3.5'' BUILD False fresh_world)"
  have a: "class_cmakebin ?w BUILD = Program (example_program ''cmake'')"
    by (simp add: first_construction)
  have b: "class_cmakevers ?w BUILD = Some ''3.9.0''" by (simp add: first_construction)
  have c: "\<not> version_compare ''3.9.0'' ''3.10''"
    by (simp add: version_compare_def component_def digit_value_def)
  from version_below_minimum_raises [OF a b c, of example_env True] a b c
  show ?thesis by (intro conjI)
qed

text \<open>
  The other conditions are absorbed by \<open>check_cmake\<close>: a candidate that is not found,
  a launch that raises \<^verbatim>\<open>FileNotFoundError\<close> or \<^verbatim>\<open>PermissionError\<close>, and an exit code
  other than 0 all give \<open>None\<close>.
\<close>

lemma check_cmake_absorbs:
  assumes "\<not> ExternalProgram_found c
      \<or> process w (trace w) (get_command c @ [''--version'']) None None = Inl FileNotFoundError
      \<or> process w (trace w) (get_command c @ [''--version'']) None None = Inl PermissionError
      \<or> (\<exists>rc out err. process w (trace w) (get_command c @ [''--version'']) None None
            = Inr (rc, out, err) \<and> rc \<noteq> 0)"
  shows "fst (check_cmake c w) = Inr None"
  using assms by (auto simp: check_cmake_def Popen_safe_def)

subsection \<open>The invocation cache\<close>

lemma call_real_returns:
  assumes "fst (call_real self args d e w) = Inr r"
  shows "\<exists>p. cmakebin self = Some p \<and> d \<notin> dom (files w)
     \<and> process w (trace w @ [Makedirs d]) (get_command p @ args) (Some e) (Some d) = Inr r
     \<and> snd (call_real self args d e w) =
         w\<lparr>trace := trace w @ [Makedirs d, Popen (get_command p @ args) (Some e) (Some d)],
           dirs := insert d (dirs w)\<rparr>"
proof (cases "d \<in> dom (files w)")
  case True
  with assms show ?thesis by (simp add: call_real_def and_then_def makedirs_def Let_def)
next
  case False
  show ?thesis
  proof (cases "cmakebin self")
    case None
    with False assms show ?thesis by (simp add: call_real_def and_then_def makedirs_def Let_def)
  next
    case (Some p)
    with False assms show ?thesis
      by (simp add: call_real_def and_then_def makedirs_def Let_def Popen_safe_def)
  qed
qed

lemma call_real_launches:
  assumes "cmakebin self = Some p" and "d \<notin> dom (files w)"
  shows "call_real self args d e w =
     (process w (trace w @ [Makedirs d]) (get_command p @ args) (Some e) (Some d),
      w\<lparr>trace := trace w @ [Makedirs d, Popen (get_command p @ args) (Some e) (Some d)],
        dirs := insert d (dirs w)\<rparr>)"
  using assms by (simp add: call_real_def and_then_def makedirs_def Let_def Popen_safe_def)

lemma call_real_ignores_cache:
  "call_real self args d e (w\<lparr>class_cmake_cache := c\<rparr>) =
     (fst (call_real self args d e w), (snd (call_real self args d e w))\<lparr>class_cmake_cache := c\<rparr>)"
  by (simp add: call_real_def and_then_def makedirs_def Let_def Popen_safe_def
      split: option.splits)

lemma call_hit:
  "class_cmake_cache w (cache_key self args d (Some (effective_env env w))) = Some r \<Longrightarrow>
   call self args d env False w = (Inr r, w)"
  by (simp add: call_def effective_env_def Let_def)

lemma call_miss:
  assumes "class_cmake_cache w (cache_key self args d (Some (effective_env env w))) = None"
    and "fst (call self args d env False w) = Inr r"
  shows "\<exists>p. cmakebin self = Some p \<and>
     snd (call self args d env False w) =
       w\<lparr>trace := trace w @ [Makedirs d,
             Popen (get_command p @ args) (Some (effective_env env w)) (Some d)],
         dirs := insert d (dirs w),
         class_cmake_cache :=
           (class_cmake_cache w)(cache_key self args d (Some (effective_env env w)) \<mapsto> r)\<rparr>"
proof -
  let ?e = "effective_env env w"
  obtain a w1 where a: "call_real self args d ?e w = (a, w1)"
    by (cases "call_real self args d ?e w")
  from assms a have "a = Inr r"
    by (cases a) (simp_all add: call_def effective_env_def Let_def and_then_def)
  with a have "fst (call_real self args d ?e w) = Inr r" by simp
  from call_real_returns [OF this] obtain p where
    p: "cmakebin self = Some p"
    and w1: "snd (call_real self args d ?e w) =
         w\<lparr>trace := trace w @ [Makedirs d, Popen (get_command p @ args) (Some ?e) (Some d)],
           dirs := insert d (dirs w)\<rparr>"
    by blast
  from assms(1) a \<open>a = Inr r\<close> w1 have "snd (call self args d env False w) =
       w\<lparr>trace := trace w @ [Makedirs d, Popen (get_command p @ args) (Some ?e) (Some d)],
         dirs := insert d (dirs w),
         class_cmake_cache := (class_cmake_cache w)(cache_key self args d (Some ?e) \<mapsto> r)\<rparr>"
    by (simp add: call_def effective_env_def Let_def and_then_def)
  with p show ?thesis by blast
qed

text \<open>
  C7. A \<open>call\<close> that finds nothing under its key and returns has launched the process
  once and filed the result. The same \<open>call\<close> made again, directly or after any other
  operations of the class, returns the same triple and leaves the world as it is, so
  nothing is launched a second time. With \<open>disable_cache\<close> the cache after the call
  is the cache before it, the result and every other effect are the same whatever the
  cache holds, and an executor that has a program launches it in a usable build
  directory on every call.
\<close>

theorem call_runs_the_process_once:
  "(class_cmake_cache w (cache_key self args d (Some (effective_env env w))) = None
      \<and> fst (call self args d env False w) = Inr r \<longrightarrow>
        launches (trace (snd (call self args d env False w))) = Suc (launches (trace w))
        \<and> call self args d env False (run xs (snd (call self args d env False w)))
            = (Inr r, run xs (snd (call self args d env False w))))
   \<and> class_cmake_cache (snd (call self args d env True w)) = class_cmake_cache w
   \<and> call self args d env True (w\<lparr>class_cmake_cache := c\<rparr>)
        = (fst (call self args d env True w),
           (snd (call self args d env True w))\<lparr>class_cmake_cache := c\<rparr>)
   \<and> (cmakebin self = Some p \<and> d \<notin> dom (files w) \<longrightarrow>
        trace (snd (call self args d env True w))
          = trace w @ [Makedirs d,
              Popen (get_command p @ args) (Some (effective_env env w)) (Some d)])"
proof (intro conjI impI)
  assume a: "class_cmake_cache w (cache_key self args d (Some (effective_env env w))) = None
      \<and> fst (call self args d env False w) = Inr r"
  let ?k = "cache_key self args d (Some (effective_env env w))"
  let ?w1 = "snd (call self args d env False w)"
  from a call_miss [of w self args d env r] obtain q where
    w1: "?w1 = w\<lparr>trace := trace w @ [Makedirs d,
             Popen (get_command q @ args) (Some (effective_env env w)) (Some d)],
         dirs := insert d (dirs w),
         class_cmake_cache := (class_cmake_cache w)(?k \<mapsto> r)\<rparr>"
    by blast
  then show "launches (trace ?w1) = Suc (launches (trace w))"
    by (simp add: launches_def)
  from w1 have e1: "os_environ ?w1 = os_environ w" and c1: "class_cmake_cache ?w1 ?k = Some r"
    by simp_all
  from run_keeps_cache [of xs ?w1 ?k r] e1 c1
  have "os_environ (run xs ?w1) = os_environ w" "class_cmake_cache (run xs ?w1) ?k = Some r"
    by simp_all
  moreover from this(1) have "effective_env env (run xs ?w1) = effective_env env w"
    by (cases env) (simp_all add: effective_env_def)
  ultimately have "class_cmake_cache (run xs ?w1)
      (cache_key self args d (Some (effective_env env (run xs ?w1)))) = Some r"
    by simp
  then show "call self args d env False (run xs ?w1) = (Inr r, run xs ?w1)"
    by (rule call_hit)
next
  show "class_cmake_cache (snd (call self args d env True w)) = class_cmake_cache w"
    by (simp add: call_def call_real_cache)
next
  show "call self args d env True (w\<lparr>class_cmake_cache := c\<rparr>)
        = (fst (call self args d env True w),
           (snd (call self args d env True w))\<lparr>class_cmake_cache := c\<rparr>)"
    by (cases env) (simp_all add: call_def call_real_ignores_cache Let_def)
next
  assume "cmakebin self = Some p \<and> d \<notin> dom (files w)"
  then show "trace (snd (call self args d env True w))
          = trace w @ [Makedirs d,
              Popen (get_command p @ args) (Some (effective_env env w)) (Some d)]"
    by (cases env) (simp_all add: call_def call_real_launches effective_env_def Let_def)
qed


lemmas invocation_defs =
  call_def call_real_def and_then_def makedirs_def Popen_safe_def cache_key_def
  effective_env_def get_command_def Let_def

theorem call_runs_the_process_once_witness:
  "class_cmake_cache fresh_world
      (cache_key example_executor [''-E'', ''capabilities''] ''/tmp/b1''
         (Some (effective_env None fresh_world))) = None
   \<and> fst (call example_executor [''-E'', ''capabilities''] ''/tmp/b1'' None False fresh_world)
      = Inr (1, ''-- Configuring done'', [])
   \<and> launches (trace (snd (call example_executor [''-E'', ''capabilities''] ''/tmp/b1'' None False
        fresh_world))) = Suc (launches (trace fresh_world))
   \<and> call example_executor [''-E'', ''capabilities''] ''/tmp/b1'' None False
        (run [Call example_executor [''--help''] ''/tmp/b1'' None True]
           (snd (call example_executor [''-E'', ''capabilities''] ''/tmp/b1'' None False fresh_world)))
      = (Inr (1, ''-- Configuring done'', []),
         run [Call example_executor [''--help''] ''/tmp/b1'' None True]
           (snd (call example_executor [''-E'', ''capabilities''] ''/tmp/b1'' None False fresh_world)))
   \<and> cmakebin example_executor = Some (example_program ''cmake'')
   \<and> ''/tmp/b1'' \<notin> dom (files fresh_world)
   \<and> trace (snd (call example_executor [''-E'', ''capabilities''] ''/tmp/b1'' None True fresh_world))
      = trace fresh_world @ [Makedirs ''/tmp/b1'',
          Popen (get_command (example_program ''cmake'') @ [''-E'', ''capabilities''])
            (Some (effective_env None fresh_world)) (Some ''/tmp/b1'')]
   \<and> fst (call example_executor [''-E'', ''capabilities''] ''/tmp/b1'' None True
        (snd (call example_executor [''-E'', ''capabilities''] ''/tmp/b1'' None False fresh_world)))
      = Inr (3, ''-- Configuring done'', [])"
proof -
  have a: "class_cmake_cache fresh_world
      (cache_key example_executor [''-E'', ''capabilities''] ''/tmp/b1''
         (Some (effective_env None fresh_world))) = None"
    by (simp add: fresh_world_def)
  have b: "fst (call example_executor [''-E'', ''capabilities''] ''/tmp/b1'' None False fresh_world)
      = Inr (1, ''-- Configuring done'', [])"
    by (simp add: invocation_defs example_defs)
  have c: "cmakebin example_executor = Some (example_program ''cmake'')"
    by (simp add: example_executor_def)
  have d: "''/tmp/b1'' \<notin> dom (files fresh_world)" by (simp add: fresh_world_def)
  have e: "fst (call example_executor [''-E'', ''capabilities''] ''/tmp/b1'' None True
        (snd (call example_executor [''-E'', ''capabilities''] ''/tmp/b1'' None False fresh_world)))
      = Inr (3, ''-- Configuring done'', [])"
    by (simp add: invocation_defs example_defs)
  from call_runs_the_process_once
    [of fresh_world example_executor "[''-E'', ''capabilities'']" "''/tmp/b1''" None
      "(1, ''-- Configuring done'', [])"
      "[Call example_executor [''--help''] ''/tmp/b1'' None True]" Map.empty
      "example_program ''cmake''"] a b c d e
  show ?thesis by blast
qed

text \<open>
  C6 as the code has it. \<open>cache_key\<close> builds the key from the handle, the arguments in
  order, the directory, and the set of the pairs of the environment, or \<open>None\<close> when it
  is given no environment; two keys are equal exactly when these four parts are.
  \<open>call\<close> files its result under the key of the environment the process gets, which
  for an unspecified environment is the ambient one: two such calls share a key exactly
  when the ambient environments hold the same pairs.
\<close>

theorem call_key_holds_the_ambient_environment:
  "cache_key self args d env = (cmakebin self, args, d, map_option set env)
   \<and> (cache_key self args d env = cache_key self' args' d' env'
        \<longleftrightarrow> cmakebin self = cmakebin self' \<and> args = args' \<and> d = d'
            \<and> map_option set env = map_option set env')
   \<and> (class_cmake_cache w (cache_key self args d (Some (effective_env env w))) = None
        \<and> fst (call self args d env False w) = Inr r \<longrightarrow>
          class_cmake_cache (snd (call self args d env False w))
            = (class_cmake_cache w)(cache_key self args d (Some (effective_env env w)) \<mapsto> r))
   \<and> (cache_key self args d (Some (effective_env None w))
          = cache_key self args d (Some (effective_env None w'))
        \<longleftrightarrow> set (os_environ w) = set (os_environ w'))"
proof (intro conjI impI)
  show k: "cache_key self args d env = (cmakebin self, args, d, map_option set env)"
    by (cases env) (simp_all add: cache_key_def)
  have k': "cache_key self' args' d' env' = (cmakebin self', args', d', map_option set env')"
    by (cases env') (simp_all add: cache_key_def)
  show "(cache_key self args d env = cache_key self' args' d' env')
        \<longleftrightarrow> (cmakebin self = cmakebin self' \<and> args = args' \<and> d = d'
            \<and> map_option set env = map_option set env')"
    unfolding k k' by simp
  show "(cache_key self args d (Some (effective_env None w))
          = cache_key self args d (Some (effective_env None w')))
        \<longleftrightarrow> (set (os_environ w) = set (os_environ w'))"
    by (simp add: cache_key_def effective_env_def)
next
  assume a: "class_cmake_cache w (cache_key self args d (Some (effective_env env w))) = None
        \<and> fst (call self args d env False w) = Inr r"
  from a call_miss [of w self args d env r] obtain p where
    "snd (call self args d env False w) =
       w\<lparr>trace := trace w @ [Makedirs d,
             Popen (get_command p @ args) (Some (effective_env env w)) (Some d)],
         dirs := insert d (dirs w),
         class_cmake_cache :=
           (class_cmake_cache w)(cache_key self args d (Some (effective_env env w)) \<mapsto> r)\<rparr>"
    by blast
  then show "class_cmake_cache (snd (call self args d env False w))
      = (class_cmake_cache w)(cache_key self args d (Some (effective_env env w)) \<mapsto> r)"
    by simp
qed

theorem call_key_holds_the_ambient_environment_witness:
  "class_cmake_cache fresh_world
      (cache_key example_executor [''-E'', ''capabilities''] ''/tmp/b1''
         (Some (effective_env None fresh_world))) = None
   \<and> fst (call example_executor [''-E'', ''capabilities''] ''/tmp/b1'' None False fresh_world)
      = Inr (1, ''-- Configuring done'', [])
   \<and> class_cmake_cache
        (snd (call example_executor [''-E'', ''capabilities''] ''/tmp/b1'' None False fresh_world))
      = (class_cmake_cache fresh_world)
          (cache_key example_executor [''-E'', ''capabilities''] ''/tmp/b1''
             (Some (effective_env None fresh_world)) \<mapsto> (1, ''-- Configuring done'', []))
   \<and> cache_key example_executor [''-E'', ''capabilities''] ''/tmp/b1''
        (Some (effective_env None fresh_world))
      = (Some (example_program ''cmake''), [''-E'', ''capabilities''], ''/tmp/b1'',
         Some {(''PATH'', ''/usr/bin'')})"
proof -
  have a: "class_cmake_cache fresh_world
      (cache_key example_executor [''-E'', ''capabilities''] ''/tmp/b1''
         (Some (effective_env None fresh_world))) = None"
    by (simp add: fresh_world_def)
  have b: "fst (call example_executor [''-E'', ''capabilities''] ''/tmp/b1'' None False fresh_world)
      = Inr (1, ''-- Configuring done'', [])"
    by (simp add: invocation_defs example_defs)
  have c: "effective_env None fresh_world = [(''PATH'', ''/usr/bin'')]"
    by (simp add: effective_env_def fresh_world_def)
  have d: "cmakebin example_executor = Some (example_program ''cmake'')"
    by (simp add: example_executor_def)
  from call_key_holds_the_ambient_environment
    [where self=example_executor and args="[''-E'', ''capabilities'']" and d="''/tmp/b1''"
      and env=None and w=fresh_world and r="(1, ''-- Configuring done'', [])"] a b
  have e: "class_cmake_cache
        (snd (call example_executor [''-E'', ''capabilities''] ''/tmp/b1'' None False fresh_world))
      = (class_cmake_cache fresh_world)
          (cache_key example_executor [''-E'', ''capabilities''] ''/tmp/b1''
             (Some (effective_env None fresh_world)) \<mapsto> (1, ''-- Configuring done'', []))"
    by blast
  from call_key_holds_the_ambient_environment
    [where self=example_executor and args="[''-E'', ''capabilities'']" and d="''/tmp/b1''"
      and env="Some (effective_env None fresh_world)"]
  have "cache_key example_executor [''-E'', ''capabilities''] ''/tmp/b1''
        (Some (effective_env None fresh_world))
      = (cmakebin example_executor, [''-E'', ''capabilities''], ''/tmp/b1'',
         map_option set (Some (effective_env None fresh_world)))"
    by blast
  with c d have f: "cache_key example_executor [''-E'', ''capabilities''] ''/tmp/b1''
        (Some (effective_env None fresh_world))
      = (Some (example_program ''cmake''), [''-E'', ''capabilities''], ''/tmp/b1'',
         Some {(''PATH'', ''/usr/bin'')})"
    by simp
  from a b e f show ?thesis by (intro conjI)
qed

text \<open>
  C6 as the claim states it fails: the same \<open>call\<close>, environment unspecified, made
  before and after the ambient environment gained a variable. The second call finds
  nothing under its key and launches the process again; under the key with \<open>None\<close> in
  the place of the environment nothing was ever filed.
\<close>

theorem unspecified_environment_keys_differ:
  "fst (call example_executor [''-E'', ''capabilities''] ''/tmp/b1'' None False fresh_world)
      = Inr (1, ''-- Configuring done'', [])
   \<and> fst (call example_executor [''-E'', ''capabilities''] ''/tmp/b1'' None False
        ((snd (call example_executor [''-E'', ''capabilities''] ''/tmp/b1'' None False fresh_world))
           \<lparr>os_environ := [(''PATH'', ''/usr/bin''), (''CC'', ''clang'')]\<rparr>))
      = Inr (3, ''-- Configuring done'', [])
   \<and> class_cmake_cache
        (snd (call example_executor [''-E'', ''capabilities''] ''/tmp/b1'' None False fresh_world))
        (cache_key example_executor [''-E'', ''capabilities''] ''/tmp/b1'' None) = None"
  by (simp add: invocation_defs example_defs)

subsection \<open>Fake build\<close>

lemmas fake_build_defs =
  call_with_fake_build_def fake_build_files_def write_if_missing_def path_exists_def open_w_def
  cmake_cache_path_def comp_dir_def c_comp_def cxx_comp_def format_version_def

text \<open>
  C5. The scenario of the spec, \<^verbatim>\<open>call_with_fake_build(['--version'], '/tmp/b2')\<close> run
  twice with the environment unspecified. Both calls return the same result, and the
  second launches no process, but it does not return at the check of line 160: it
  creates the directories again, rewrites the marker and tests both stubs. Line 159
  builds the key with \<^verbatim>\<open>None\<close> for the environment, while \<open>call\<close> filed the result
  under the key of the ambient environment.
\<close>

theorem repeated_fake_build_stages_again:
  "fst (call_with_fake_build example_executor [''--version''] ''/tmp/b2'' None fresh_world)
      = fst (call_with_fake_build example_executor [''--version''] ''/tmp/b2'' None
          (snd (call_with_fake_build example_executor [''--version''] ''/tmp/b2'' None fresh_world)))
   \<and> trace (snd (call_with_fake_build example_executor [''--version''] ''/tmp/b2'' None
          (snd (call_with_fake_build example_executor [''--version''] ''/tmp/b2'' None fresh_world))))
      = trace (snd (call_with_fake_build example_executor [''--version''] ''/tmp/b2'' None fresh_world))
        @ [Makedirs ''/tmp/b2'',
           OpenW ''/tmp/b2/CMakeCache.txt'' cache_marker,
           Makedirs ''/tmp/b2/CMakeFiles/3.9.0'',
           PathExists ''/tmp/b2/CMakeFiles/3.9.0/CMakeCCompiler.cmake'',
           PathExists ''/tmp/b2/CMakeFiles/3.9.0/CMakeCXXCompiler.cmake'']"
  by (simp add: fake_build_defs invocation_defs example_defs)

lemma and_then_cache:
  assumes "class_cmake_cache (snd r) = C"
    and "\<And>x w1. class_cmake_cache (snd (f x w1)) = class_cmake_cache w1"
  shows "class_cmake_cache (snd (and_then r f)) = C"
proof (cases r)
  case (Pair a w1)
  with assms show ?thesis by (cases a) (simp_all add: and_then_def)
qed

lemma write_if_missing_cache:
  "class_cmake_cache (snd (write_if_missing p content w)) = class_cmake_cache w"
  by (simp add: write_if_missing_def path_exists_def open_w_def Let_def split: bool.splits)

lemma fake_build_files_cache:
  "class_cmake_cache (snd (fake_build_files self d w)) = class_cmake_cache w"
  unfolding fake_build_files_def
  by (intro and_then_cache write_if_missing_cache) (simp_all add: makedirs_def open_w_def Let_def)

text \<open>
  With an environment that is given, the check of line 160 does find what \<open>call\<close>
  filed: the same call made again returns the cached result and leaves the world, file
  system and trace included, as it is.
\<close>

lemma call_with_fake_build_again:
  assumes "class_cmake_cache w (cache_key self args d (Some e)) = None"
    and "fst (call_with_fake_build self args d (Some e) w) = Inr r"
  shows "call_with_fake_build self args d (Some e)
           (snd (call_with_fake_build self args d (Some e) w))
         = (Inr r, snd (call_with_fake_build self args d (Some e) w))"
proof -
  let ?k = "cache_key self args d (Some e)"
  obtain a w1 where f: "fake_build_files self d w = (a, w1)"
    by (cases "fake_build_files self d w")
  from assms f obtain u where a: "a = Inr u"
    by (cases a) (simp_all add: call_with_fake_build_def Let_def and_then_def)
  from f have "class_cmake_cache w1 = class_cmake_cache w"
    using fake_build_files_cache [of self d w] by simp
  with assms(1) have miss: "class_cmake_cache w1 (cache_key self args d (Some (effective_env (Some e) w1))) = None"
    by (simp add: effective_env_def)
  from assms f a have eq: "call_with_fake_build self args d (Some e) w = call self args d (Some e) False w1"
    by (simp add: call_with_fake_build_def Let_def and_then_def)
  with assms(2) have ok: "fst (call self args d (Some e) False w1) = Inr r" by simp
  from call_miss [OF miss ok] have "class_cmake_cache (snd (call self args d (Some e) False w1)) ?k = Some r"
    by (auto simp: effective_env_def)
  with eq have "class_cmake_cache (snd (call_with_fake_build self args d (Some e) w)) ?k = Some r"
    by simp
  then show ?thesis by (simp add: call_with_fake_build_def Let_def)
qed

lemma stub_paths_differ:
  "c_comp self d \<noteq> cmake_cache_path d" "cxx_comp self d \<noteq> cmake_cache_path d"
  "cmake_cache_path d \<noteq> d"
  by (simp_all add: c_comp_def cxx_comp_def comp_dir_def cmake_cache_path_def)

lemma fake_build_files_marker:
  assumes "d \<notin> dom (files w)" and "cmake_cache_path d \<notin> dirs w"
  shows "files (snd (fake_build_files self d w)) (cmake_cache_path d) = Some cache_marker"
proof -
  let ?w1 = "w\<lparr>trace := trace w @ [Makedirs d], dirs := insert d (dirs w)\<rparr>"
  let ?w2 = "?w1\<lparr>trace := trace ?w1 @ [OpenW (cmake_cache_path d) cache_marker],
      files := (files ?w1)(cmake_cache_path d \<mapsto> cache_marker)\<rparr>"
  let ?rest = "and_then (makedirs (comp_dir self d) ?w2) (\<lambda>u w3.
     and_then (write_if_missing (c_comp self d) (c_stub w3) w3) (\<lambda>u w4.
       write_if_missing (cxx_comp self d) (cxx_stub w4) w4))"
  have m: "makedirs d w = (Inr (), ?w1)" using assms(1) by (simp add: makedirs_def Let_def)
  have "cmake_cache_path d \<notin> dirs ?w1" using assms(2) stub_paths_differ(3) [of d] by simp
  then have o: "open_w (cmake_cache_path d) cache_marker ?w1 = (Inr (), ?w2)"
    by (simp add: open_w_def Let_def)
  have eq: "fake_build_files self d w = ?rest"
    unfolding fake_build_files_def by (simp add: m o and_then_def)
  have "evolves ({} \<union> ({} \<union> {})) ?w2 (snd ?rest)"
    by (intro evolves_and_then makedirs_evolves write_if_missing_evolves)
  moreover have "files ?w2 (cmake_cache_path d) = Some cache_marker" by simp
  ultimately have "files (snd ?rest) (cmake_cache_path d) = Some cache_marker"
    by (auto dest: evolves_files)
  with eq show ?thesis by simp
qed

text \<open>
  C4 as the code has it. Whatever \<open>call_with_fake_build\<close> is called with, a C or C++
  compiler stub that exists keeps its content. The marker does not: a call that misses
  the invocation cache, with a build directory that is no file and a marker path that is
  no directory, leaves the marker with the one fixed line, whatever it held before.
\<close>

theorem fake_build_keeps_stubs_and_resets_marker:
  "(files w (c_comp self d) = Some x \<longrightarrow>
      files (snd (call_with_fake_build self args d env w)) (c_comp self d) = Some x)
   \<and> (files w (cxx_comp self d) = Some y \<longrightarrow>
      files (snd (call_with_fake_build self args d env w)) (cxx_comp self d) = Some y)
   \<and> (class_cmake_cache w (cache_key self args d env) = None
        \<and> d \<notin> dom (files w) \<and> cmake_cache_path d \<notin> dirs w \<longrightarrow>
      files (snd (call_with_fake_build self args d env w)) (cmake_cache_path d)
        = Some cache_marker)"
proof (intro conjI impI)
  note ev = call_with_fake_build_evolves [of d w self args env]
  assume "files w (c_comp self d) = Some x"
  with ev stub_paths_differ(1) [of self d]
  show "files (snd (call_with_fake_build self args d env w)) (c_comp self d) = Some x"
    by (auto dest: evolves_files)
next
  note ev = call_with_fake_build_evolves [of d w self args env]
  assume "files w (cxx_comp self d) = Some y"
  with ev stub_paths_differ(2) [of self d]
  show "files (snd (call_with_fake_build self args d env w)) (cxx_comp self d) = Some y"
    by (auto dest: evolves_files)
next
  assume a: "class_cmake_cache w (cache_key self args d env) = None
        \<and> d \<notin> dom (files w) \<and> cmake_cache_path d \<notin> dirs w"
  let ?w1 = "snd (fake_build_files self d w)"
  from a have m: "files ?w1 (cmake_cache_path d) = Some cache_marker"
    by (simp add: fake_build_files_marker)
  show "files (snd (call_with_fake_build self args d env w)) (cmake_cache_path d)
        = Some cache_marker"
  proof (cases "fake_build_files self d w")
    case (Pair r w1)
    with m have m1: "files w1 (cmake_cache_path d) = Some cache_marker" by simp
    show ?thesis
    proof (cases r)
      case (Inl e)
      with Pair a m1 show ?thesis by (simp add: call_with_fake_build_def Let_def and_then_def)
    next
      case (Inr u)
      from call_evolves [of w1 self args d env False] m1
      have "files (snd (call self args d env False w1)) (cmake_cache_path d) = Some cache_marker"
        by (auto dest: evolves_files)
      with Pair Inr a show ?thesis by (simp add: call_with_fake_build_def Let_def and_then_def)
    qed
  qed
qed

theorem fake_build_keeps_stubs_and_resets_marker_witness:
  "files configured_world (c_comp example_executor ''/tmp/b2'') = Some ''# C, written by CMake''
   \<and> files configured_world (cxx_comp example_executor ''/tmp/b2'')
      = Some ''# C++, written by CMake''
   \<and> class_cmake_cache configured_world
        (cache_key example_executor [''--version''] ''/tmp/b2'' None) = None
   \<and> ''/tmp/b2'' \<notin> dom (files configured_world)
   \<and> cmake_cache_path ''/tmp/b2'' \<notin> dirs configured_world
   \<and> files (snd (call_with_fake_build example_executor [''--version''] ''/tmp/b2'' None
        configured_world)) (c_comp example_executor ''/tmp/b2'') = Some ''# C, written by CMake''
   \<and> files (snd (call_with_fake_build example_executor [''--version''] ''/tmp/b2'' None
        configured_world)) (cxx_comp example_executor ''/tmp/b2'')
      = Some ''# C++, written by CMake''
   \<and> files (snd (call_with_fake_build example_executor [''--version''] ''/tmp/b2'' None
        configured_world)) (cmake_cache_path ''/tmp/b2'') = Some cache_marker"
proof -
  note paths = c_comp_def cxx_comp_def comp_dir_def cmake_cache_path_def format_version_def
    example_executor_def
  have a: "files configured_world (c_comp example_executor ''/tmp/b2'')
      = Some ''# C, written by CMake''"
    by (simp add: configured_world_def paths)
  have b: "files configured_world (cxx_comp example_executor ''/tmp/b2'')
      = Some ''# C++, written by CMake''"
    by (simp add: configured_world_def paths)
  have c: "class_cmake_cache configured_world
      (cache_key example_executor [''--version''] ''/tmp/b2'' None) = None"
    by (simp add: configured_world_def fresh_world_def)
  have d: "''/tmp/b2'' \<notin> dom (files configured_world)"
    by (simp add: configured_world_def)
  have e: "cmake_cache_path ''/tmp/b2'' \<notin> dirs configured_world"
    by (simp add: configured_world_def paths)
  from fake_build_keeps_stubs_and_resets_marker
    [of configured_world example_executor "''/tmp/b2''" "''# C, written by CMake''"
      "[''--version'']" None "''# C++, written by CMake''"]
    a b c d e
  show ?thesis by blast
qed

text \<open>
  C4 as the claim states it fails for the marker: a build directory whose
  \<^verbatim>\<open>CMakeCache.txt\<close> holds what an earlier configuration left there. Line 166 opens the
  file for writing without asking whether it exists, and the call leaves the one fixed
  line in it.
\<close>

theorem existing_marker_is_rewritten:
  "files configured_world (cmake_cache_path ''/tmp/b2'') = Some ''CMAKE_BUILD_TYPE:STRING=Release''
   \<and> files (snd (call_with_fake_build example_executor [''--version''] ''/tmp/b2'' None
        configured_world)) (cmake_cache_path ''/tmp/b2'')
      = Some (lines_text [''CMAKE_PLATFORM_INFO_INITIALIZED:INTERNAL=1''])"
  by (simp add: configured_world_def fake_build_defs invocation_defs example_defs
      cache_marker_def)

subsection \<open>Which candidate is stored\<close>

lemma first_to_pass_Nil: "\<not> first_to_pass [] c ver w"
  by (simp add: first_to_pass_def)

lemma first_to_pass_Cons:
  "first_to_pass (a # as) c ver w \<longleftrightarrow>
     (c = a \<and> gate_accepts a ver w) \<or> (gate_rejects a w \<and> first_to_pass as c ver (after_probes [a] w))"
proof
  assume "first_to_pass (a # as) c ver w"
  then obtain ps rest where ps: "a # as = ps @ c # rest"
    and rej: "\<forall>k<length ps. gate_rejects (ps ! k) (after_probes (take k ps) w)"
    and acc: "gate_accepts c ver (after_probes ps w)"
    unfolding first_to_pass_def by blast
  show "(c = a \<and> gate_accepts a ver w) \<or> (gate_rejects a w \<and> first_to_pass as c ver (after_probes [a] w))"
  proof (cases ps)
    case Nil
    with ps acc show ?thesis by (simp add: after_probes_Nil)
  next
    case (Cons b ps')
    with ps have b: "b = a" and as: "as = ps' @ c # rest" by simp_all
    from rej Cons b have r0: "gate_rejects a w" by (auto simp: after_probes_Nil)
    have "\<forall>k<length ps'. gate_rejects (ps' ! k) (after_probes (take k ps') (after_probes [a] w))"
    proof (intro allI impI)
      fix k assume "k < length ps'"
      with Cons have "Suc k < length ps" by simp
      with rej have "gate_rejects (ps ! Suc k) (after_probes (take (Suc k) ps) w)" by blast
      with Cons b show "gate_rejects (ps' ! k) (after_probes (take k ps') (after_probes [a] w))"
        by (simp add: after_probes_Cons [of a "take k ps'"])
    qed
    moreover from acc Cons b have "gate_accepts c ver (after_probes ps' (after_probes [a] w))"
      by (simp add: after_probes_Cons [of a ps'])
    ultimately have "first_to_pass as c ver (after_probes [a] w)"
      unfolding first_to_pass_def using as by blast
    with r0 show ?thesis by simp
  qed
next
  assume "(c = a \<and> gate_accepts a ver w) \<or> (gate_rejects a w \<and> first_to_pass as c ver (after_probes [a] w))"
  then show "first_to_pass (a # as) c ver w"
  proof
    assume "c = a \<and> gate_accepts a ver w"
    then have "a # as = [] @ c # as"
      "\<forall>k<length ([]::ExternalProgram list). gate_rejects ([] ! k) (after_probes (take k []) w)"
      "gate_accepts c ver (after_probes [] w)"
      by (simp_all add: after_probes_Nil)
    then show ?thesis unfolding first_to_pass_def by blast
  next
    assume r: "gate_rejects a w \<and> first_to_pass as c ver (after_probes [a] w)"
    then obtain ps rest where as: "as = ps @ c # rest"
      and rej: "\<forall>k<length ps. gate_rejects (ps ! k) (after_probes (take k ps) (after_probes [a] w))"
      and acc: "gate_accepts c ver (after_probes ps (after_probes [a] w))"
      unfolding first_to_pass_def by blast
    have 1: "a # as = (a # ps) @ c # rest" using as by simp
    have 2: "\<forall>k<length (a # ps). gate_rejects ((a # ps) ! k) (after_probes (take k (a # ps)) w)"
    proof (intro allI impI)
      fix k assume k: "k < length (a # ps)"
      show "gate_rejects ((a # ps) ! k) (after_probes (take k (a # ps)) w)"
      proof (cases k)
        case 0
        with r show ?thesis by (simp add: after_probes_Nil)
      next
        case (Suc j)
        with k rej have "gate_rejects (ps ! j) (after_probes (take j ps) (after_probes [a] w))"
          by simp
        with Suc show ?thesis by (simp add: after_probes_Cons [of a "take j ps"])
      qed
    qed
    have 3: "gate_accepts c ver (after_probes (a # ps) w)"
      using acc by (simp add: after_probes_Cons [of a ps])
    from 1 2 3 show ?thesis unfolding first_to_pass_def by blast
  qed
qed

lemma search_loop_first_to_pass:
  "fst (search_loop cs w) = Inr (Some (c, ver)) \<longleftrightarrow> first_to_pass cs c ver w"
proof (induction cs arbitrary: w)
  case Nil
  show ?case by (simp add: first_to_pass_Nil)
next
  case (Cons a as)
  obtain r where r: "check_cmake a w = (r, after_probes [a] w)"
    using check_cmake_world [of a w] by (cases "check_cmake a w") simp
  show ?case
  proof (cases r)
    case (Inl e)
    with r show ?thesis
      by (simp add: first_to_pass_Cons gate_accepts_def gate_rejects_def)
  next
    case (Inr v)
    show ?thesis
    proof (cases v)
      case None
      with r Inr Cons.IH [of "after_probes [a] w"] show ?thesis
        by (simp add: first_to_pass_Cons gate_accepts_def gate_rejects_def)
    next
      case (Some s)
      show ?thesis
      proof (cases "s = []")
        case True
        with r Inr Some Cons.IH [of "after_probes [a] w"] show ?thesis
          by (auto simp add: first_to_pass_Cons gate_accepts_def gate_rejects_def)
      next
        case False
        with r Inr Some show ?thesis
          by (auto simp add: first_to_pass_Cons gate_accepts_def gate_rejects_def)
      qed
    qed
  qed
qed

lemma find_cmake_binary_stores:
  assumes "class_cmakebin w m = PyNone"
  shows "class_cmakebin (snd (find_cmake_binary env m silent w)) m = Program c
         \<and> class_cmakevers (snd (find_cmake_binary env m silent w)) m = Some ver
     \<longleftrightarrow> fst (search_loop (search env m w) w) = Inr (Some (c, ver))"
proof -
  obtain r w1 where r: "search_loop (search env m w) w = (r, w1)"
    by (cases "search_loop (search env m w) w")
  obtain tr where "snd (search_loop (search env m w) w) = w\<lparr>trace := tr\<rparr>"
    using search_loop_fields by blast
  with r have w1: "w1 = w\<lparr>trace := tr\<rparr>" by simp
  show ?thesis
  proof (cases r)
    case (Inl e)
    with assms r w1 show ?thesis by (simp add: find_cmake_binary_def)
  next
    case (Inr x)
    show ?thesis
    proof (cases x)
      case None
      with Inr assms r w1 show ?thesis by (simp add: find_cmake_binary_def store_record_def)
    next
      case (Some cv)
      obtain c' v' where "cv = (c', v')" by (cases cv)
      with Some Inr assms r w1 show ?thesis
        by (simp add: find_cmake_binary_def store_record_def)
    qed
  qed
qed


text \<open>
  C1 as the code has it. On the first construction for a role, a candidate is stored
  with its version exactly when it is the first of the search order to pass the gate
  with a version that is not empty, each candidate before it having been rejected in its
  turn. The caller's minimum takes no part: the world after the construction is the same
  for every minimum.
\<close>

theorem stored_candidate_is_first_to_pass_the_gate:
  assumes "class_cmakebin w m = PyNone"
  shows "((class_cmakebin (snd (CMakeExecutor_init env minimum m silent w)) m = Program c
           \<and> class_cmakevers (snd (CMakeExecutor_init env minimum m silent w)) m = Some ver)
          \<longleftrightarrow> first_to_pass (search env m w) c ver w)
    \<and> snd (CMakeExecutor_init env minimum m silent w)
        = snd (CMakeExecutor_init env minimum' m silent w)"
proof
  show "(class_cmakebin (snd (CMakeExecutor_init env minimum m silent w)) m = Program c
           \<and> class_cmakevers (snd (CMakeExecutor_init env minimum m silent w)) m = Some ver)
          \<longleftrightarrow> first_to_pass (search env m w) c ver w"
    unfolding init_world
    using find_cmake_binary_stores [OF assms, of env silent c ver]
      search_loop_first_to_pass [of "search env m w" w c ver]
    by simp
  show "snd (CMakeExecutor_init env minimum m silent w)
        = snd (CMakeExecutor_init env minimum' m silent w)"
    by (simp add: init_world)
qed

theorem stored_candidate_is_first_to_pass_the_gate_witness:
  "class_cmakebin fresh_world BUILD = PyNone
   \<and> class_cmakebin (snd (CMakeExecutor_init
        (example_env\<lparr>default_cmake := [''/opt/cmake'', ''cmake'']\<rparr>) ''3.10'' BUILD False
        fresh_world)) BUILD = Program (example_program ''cmake'')
   \<and> class_cmakevers (snd (CMakeExecutor_init
        (example_env\<lparr>default_cmake := [''/opt/cmake'', ''cmake'']\<rparr>) ''3.10'' BUILD False
        fresh_world)) BUILD = Some ''3.9.0''
   \<and> first_to_pass
        (search (example_env\<lparr>default_cmake := [''/opt/cmake'', ''cmake'']\<rparr>) BUILD fresh_world)
        (example_program ''cmake'') ''3.9.0'' fresh_world
   \<and> search (example_env\<lparr>default_cmake := [''/opt/cmake'', ''cmake'']\<rparr>) BUILD fresh_world
      = [example_program ''/opt/cmake'', example_program ''cmake'']"
proof -
  let ?env = "example_env\<lparr>default_cmake := [''/opt/cmake'', ''cmake'']\<rparr>"
  let ?w' = "snd (CMakeExecutor_init ?env ''3.10'' BUILD False fresh_world)"
  have a: "class_cmakebin fresh_world BUILD = PyNone" by (simp add: fresh_world_def)
  have b: "class_cmakebin ?w' BUILD = Program (example_program ''cmake'')"
    by (simp add: discovery_defs example_defs)
  have c: "class_cmakevers ?w' BUILD = Some ''3.9.0''"
    by (simp add: discovery_defs example_defs)
  have d: "search ?env BUILD fresh_world = [example_program ''/opt/cmake'', example_program ''cmake'']"
    by (simp add: search_def example_defs)
  from stored_candidate_is_first_to_pass_the_gate
    [OF a, of ?env "''3.10''" False "example_program ''cmake''" "''3.9.0''"] b c
  have "first_to_pass (search ?env BUILD fresh_world) (example_program ''cmake'') ''3.9.0''
      fresh_world"
    by blast
  with a b c d show ?thesis by (intro conjI)
qed

text \<open>
  C1 as the claim states it fails: the first caller asks for 3.10 and the only candidate
  reports 3.9.0. The candidate is below the minimum and is stored all the same; a later
  caller that asks for 3.5 is given it without a new search.
\<close>

theorem candidate_below_minimum_is_stored:
  "\<not> version_compare ''3.9.0'' ''3.10''
   \<and> class_cmakebin (snd (CMakeExecutor_init example_env ''3.10'' BUILD False fresh_world)) BUILD
      = Program (example_program ''cmake'')
   \<and> class_cmakevers (snd (CMakeExecutor_init example_env ''3.10'' BUILD False fresh_world)) BUILD
      = Some ''3.9.0''
   \<and> CMakeExecutor_init example_env ''3.5'' BUILD False
        (snd (CMakeExecutor_init example_env ''3.10'' BUILD False fresh_world))
      = (Inr example_executor,
         snd (CMakeExecutor_init example_env ''3.10'' BUILD False fresh_world))"
  by (simp add: discovery_defs example_defs)

end
